theory Spec2Isabelle
  imports Main "HOL-Library.AList" "HOL-Library.Sublist"
begin

section \<open>The object loading engine of \<open>modal/app.py\<close>\<close>

text \<open>
  The development embeds \<open>_lookup_to_id\<close>, \<open>_App.load\<close> and
  \<open>_App.create_all_objects\<close> of \<open>src/modal/app.py\<close>. The session object
  \<open>_App\<close> is a record that every operation takes and returns; an exception is the
  left summand of the result, and the state that comes with it is the state the session
  is left in when the exception leaves the function. The \<open>progress\<close> tree, which only
  drives terminal output, and the final \<open>set_local_app\<close> loop of
  \<open>create_all_objects\<close>, which touches no session field, are left out.
\<close>

subsection \<open>Errors\<close>

text \<open>
  \<open>NotFoundError\<close> is raised on line 27, \<open>KeyError\<close> by the dictionary read of
  line 110, \<open>AssertionError\<close> by lines 105 and 117. Lines 133 and 140 both raise a plain
  \<open>Exception\<close>; the two constructors keep what their messages are built from (the
  existing id and the produced id on line 134). \<open>RemoteError\<close> stands for whatever
  a remote call raises.
\<close>

datatype error =
    NotFoundError string
  | KeyError string
  | AssertionError
  | Exception_existing_id string "string option"
  | Exception_object_id_None
  | RemoteError string

subsection \<open>Objects\<close>

text \<open>
  Modelled from the spec: the classes \<open>Object\<close> and \<open>Ref\<close> of
  \<open>modal/object.py\<close> and \<open>intercept_coro\<close> of \<open>modal_utils\<close> are not part of the
  sources. Following the data model of the specification, a node is either a
  definition, with its process-local uuid and its creation logic \<open>_load\<close>, or a
  reference with a uuid, an optional application name, a tag, an optional namespace and
  an optional embedded definition.

  The creation logic \<open>_load(client, app_id, existing_object_id)\<close> is a coroutine. It
  is a tree of the things it can do next: return an object id (which Python allows to be
  \<open>None\<close>), raise, await another object (the interceptor of line 116 then loads that
  object and sends the id back), await a remote call of its own kind (a method name and
  a payload, answered by a string), or await something that is neither.
\<close>

type_synonym namespace = "nat option"

datatype obj =
    Definition string "string \<Rightarrow> string option \<Rightarrow> coro"
  | Ref string "string option" string namespace "obj option"
and coro =
    Return "string option"
  | Raise error
  | AwaitObject obj "string option \<Rightarrow> coro"
  | AwaitRpc string "string list" "string \<Rightarrow> coro"
  | AwaitOther

fun local_uuid :: "obj \<Rightarrow> string" where
  "local_uuid (Definition u ld) = u"
| "local_uuid (Ref u an t ns d) = u"

text \<open>\<open>ref(app_name, tag)\<close> builds a reference without a definition; the uuid that
  \<open>Object.__init__\<close> draws is an argument.\<close>

definition ref :: "string \<Rightarrow> string option \<Rightarrow> string \<Rightarrow> obj" where
  "ref u an t = Ref u an t None None"

subsection \<open>The client and the session\<close>

text \<open>
  Every call that leaves the process is logged: the three remote calls of the file that
  matter here, the remote calls of the creation logic, and the call of
  \<open>_Stub.deploy\<close> on line 101, whose argument is the blueprint of the stub that lines
  99 and 100 build.
\<close>

datatype event =
    AppLookupObject string string namespace
  | AppSetObjects string "(string \<times> string option) list" string
  | ObjectRpc string "string list"
  | StubDeploy string "(string \<times> obj) list"

text \<open>
  The other side is a parameter: for each kind of call, a function from the calls made
  so far and the request to an exception or a response. The response of
  \<open>AppLookupObject\<close> is its two fields \<open>object_id\<close> and \<open>error_message\<close>.
\<close>

record remote =
  lookup_object :: "event list \<Rightarrow> string \<Rightarrow> string \<Rightarrow> namespace \<Rightarrow> error + string \<times> string"
  set_objects :: "event list \<Rightarrow> string \<Rightarrow> (string \<times> string option) list \<Rightarrow> string \<Rightarrow> error + unit"
  object_rpc :: "event list \<Rightarrow> string \<Rightarrow> string list \<Rightarrow> error + string"
  stub_deploy :: "event list \<Rightarrow> string \<Rightarrow> (string \<times> obj) list \<Rightarrow> error + unit"

text \<open>
  The fields of \<open>_App\<close>. \<open>_tag_to_object\<close> keeps its insertion order, which
  line 153 iterates; an entry holds the \<open>object_id\<close> of the handle made by
  \<open>Object.from_id\<close>. \<open>calls\<close> is the log of the client.
\<close>

record app =
  app_id :: string
  client_id :: string
  tag_to_object :: "(string \<times> string option) list"
  tag_to_existing_id :: "string \<rightharpoonup> string"
  local_uuid_to_object_id :: "string \<rightharpoonup> string option"
  calls :: "event list"

type_synonym blueprint = "(string \<times> obj) list"

text \<open>\<open>_App.__init__\<close>, lines 53 to 66.\<close>

definition App_init :: "string \<Rightarrow> string \<Rightarrow> event list \<Rightarrow>
    (string \<times> string option) list option \<Rightarrow> (string \<rightharpoonup> string) option \<Rightarrow> app" where
  "App_init aid cid log tto tte =
     \<lparr>app_id = aid, client_id = cid,
      tag_to_object = (case tto of None \<Rightarrow> [] | Some d \<Rightarrow> d),
      tag_to_existing_id = (case tte of None \<Rightarrow> Map.empty | Some d \<Rightarrow> d),
      local_uuid_to_object_id = Map.empty,
      calls = log\<rparr>"

subsection \<open>\<open>_lookup_to_id\<close>\<close>

definition log_call :: "event \<Rightarrow> app \<Rightarrow> app" where
  "log_call e s = s\<lparr>calls := calls s @ [e]\<rparr>"

definition lookup_to_id :: "remote \<Rightarrow> string \<Rightarrow> string \<Rightarrow> namespace \<Rightarrow> app \<Rightarrow> (error + string) \<times> app" where
  "lookup_to_id rem an t ns s =
     (case lookup_object rem (calls s) an t ns of
        Inl e \<Rightarrow> (Inl e, log_call (AppLookupObject an t ns) s)
      | Inr (object_id, error_message) \<Rightarrow>
          if object_id = [] then (Inl (NotFoundError error_message), log_call (AppLookupObject an t ns) s)
          else (Inr object_id, log_call (AppLookupObject an t ns) s))"

subsection \<open>\<open>_App.load\<close>\<close>

definition startswith :: "string \<Rightarrow> string \<Rightarrow> bool" where
  "startswith s p = prefix p s"

text \<open>Lines 137 to 142: the id is stored first and checked afterwards.\<close>

definition store_and_return :: "obj \<Rightarrow> string option \<Rightarrow> app \<Rightarrow> (error + string option) \<times> app" where
  "store_and_return ob object_id s =
     (if object_id = None
      then (Inl Exception_object_id_None,
            s\<lparr>local_uuid_to_object_id := (local_uuid_to_object_id s)(local_uuid ob \<mapsto> object_id)\<rparr>)
      else (Inr object_id,
            s\<lparr>local_uuid_to_object_id := (local_uuid_to_object_id s)(local_uuid ob \<mapsto> object_id)\<rparr>))"

text \<open>
  Modelled from the spec: the class \<open>_Stub\<close> of \<open>modal/stub.py\<close> and its method
  \<open>deploy\<close> are not part of the sources. Lines 99 to 101 build a stub named after
  the application, put the embedded definition into it under the tag \<open>_object\<close> and
  deploy it with the client of the session. The specification describes this as the
  deployment of an application of its own that holds this one object; what the
  deployment does on the way is no subject here, so it is one logged call that returns
  or raises.
\<close>

definition deploy_definition :: "remote \<Rightarrow> string \<Rightarrow> obj \<Rightarrow> app \<Rightarrow> (error + unit) \<times> app" where
  "deploy_definition rem an d s =
     (case stub_deploy rem (calls s) an [(''_object'', d)] of
        Inl e \<Rightarrow> (Inl e, log_call (StubDeploy an [(''_object'', d)]) s)
      | Inr u \<Rightarrow> (Inr (), log_call (StubDeploy an [(''_object'', d)]) s))"

definition object_call :: "remote \<Rightarrow> string \<Rightarrow> string list \<Rightarrow> app \<Rightarrow> (error + string) \<times> app" where
  "object_call rem m args s =
     (case object_rpc rem (calls s) m args of
        Inl e \<Rightarrow> (Inl e, log_call (ObjectRpc m args) s)
      | Inr r \<Rightarrow> (Inr r, log_call (ObjectRpc m args) s))"

text \<open>
  The recursion of \<open>load\<close> follows references through the blueprint and the awaits of
  the creation logic, and need not end (the specification leaves a cyclic blueprint to
  exhaust the stack). The first argument bounds the depth of the calls; \<open>None\<close> is a
  run that did not finish within it.
\<close>

fun load :: "nat \<Rightarrow> remote \<Rightarrow> blueprint \<Rightarrow> obj \<Rightarrow> string option \<Rightarrow> app
    \<Rightarrow> ((error + string option) \<times> app) option"
and intercept_coro :: "nat \<Rightarrow> remote \<Rightarrow> blueprint \<Rightarrow> coro \<Rightarrow> app
    \<Rightarrow> ((error + string option) \<times> app) option"
where
  "load 0 rem bp ob existing_object_id s = None"
| "load (Suc n) rem bp ob existing_object_id s =
     (case local_uuid_to_object_id s (local_uuid ob) of
        Some cached \<Rightarrow> Some (Inr cached, s)
      | None \<Rightarrow>
         (case ob of
            Ref u app_name tag ns definition \<Rightarrow>
              (case app_name of
                 Some an \<Rightarrow>
                   (case (case definition of
                            Some d \<Rightarrow> deploy_definition rem an d s
                          | None \<Rightarrow> (Inr (), s)) of
                      (Inl e, s1) \<Rightarrow> Some (Inl e, s1)
                    | (Inr u1, s1) \<Rightarrow>
                        (case lookup_to_id rem an tag ns s1 of
                           (Inl e, s2) \<Rightarrow> Some (Inl e, s2)
                         | (Inr object_id, s2) \<Rightarrow> Some (store_and_return ob (Some object_id) s2)))
               | None \<Rightarrow>
                   if definition \<noteq> None then Some (Inl AssertionError, s)
                   else
                     (case map_of (tag_to_object s) tag of
                        Some object_id \<Rightarrow> Some (store_and_return ob object_id s)
                      | None \<Rightarrow>
                          (case map_of bp tag of
                             None \<Rightarrow> Some (Inl (KeyError tag), s)
                           | Some real_obj \<Rightarrow>
                               (case load n rem bp real_obj (tag_to_existing_id s tag) s of
                                  None \<Rightarrow> None
                                | Some (Inl e, s1) \<Rightarrow> Some (Inl e, s1)
                                | Some (Inr object_id, s1) \<Rightarrow>
                                    Some (store_and_return ob object_id
                                      (s1\<lparr>tag_to_object := AList.update tag object_id (tag_to_object s1)\<rparr>))))))
          | Definition u ld \<Rightarrow>
              (case intercept_coro n rem bp (ld (app_id s) existing_object_id) s of
                 None \<Rightarrow> None
               | Some (Inl e, s1) \<Rightarrow> Some (Inl e, s1)
               | Some (Inr object_id, s1) \<Rightarrow>
                   (case existing_object_id of
                      None \<Rightarrow> Some (store_and_return ob object_id s1)
                    | Some ex \<Rightarrow>
                        if object_id \<noteq> Some ex \<and> \<not> startswith ex ''im-''
                        then Some (Inl (Exception_existing_id ex object_id), s1)
                        else Some (store_and_return ob object_id s1)))))"
| "intercept_coro 0 rem bp c s = None"
| "intercept_coro (Suc n) rem bp c s =
     (case c of
        Return object_id \<Rightarrow> Some (Inr object_id, s)
      | Raise e \<Rightarrow> Some (Inl e, s)
      | AwaitObject awaitable k \<Rightarrow>
          (case load n rem bp awaitable None s of
             None \<Rightarrow> None
           | Some (Inl e, s1) \<Rightarrow> Some (Inl e, s1)
           | Some (Inr v, s1) \<Rightarrow> intercept_coro n rem bp (k v) s1)
      | AwaitRpc m args k \<Rightarrow>
          (case object_call rem m args s of
             (Inl e, s1) \<Rightarrow> Some (Inl e, s1)
           | (Inr r, s1) \<Rightarrow> intercept_coro n rem bp (k r) s1)
      | AwaitOther \<Rightarrow> Some (Inl AssertionError, s))"

subsection \<open>\<open>_App.create_all_objects\<close>\<close>

text \<open>
  The loop of lines 146 to 148 over the tags of the blueprint. Each round builds a new
  reference with \<open>ref(None, tag)\<close>; \<open>uuid4 tag\<close> is the uuid drawn for it.
\<close>

fun load_tags :: "nat \<Rightarrow> remote \<Rightarrow> blueprint \<Rightarrow> (string \<Rightarrow> string) \<Rightarrow> string list \<Rightarrow> app
    \<Rightarrow> ((error + unit) \<times> app) option" where
  "load_tags n rem bp uuid4 [] s = Some (Inr (), s)"
| "load_tags n rem bp uuid4 (tag # tags) s =
     (case load n rem bp (ref (uuid4 tag) None tag) None s of
        None \<Rightarrow> None
      | Some (Inl e, s1) \<Rightarrow> Some (Inl e, s1)
      | Some (Inr v, s1) \<Rightarrow> load_tags n rem bp uuid4 tags s1)"

definition set_objects_call :: "remote \<Rightarrow> app \<Rightarrow> (error + unit) \<times> app" where
  "set_objects_call rem s =
     (case set_objects rem (calls s) (app_id s) (tag_to_object s) (client_id s) of
        Inl e \<Rightarrow> (Inl e, log_call (AppSetObjects (app_id s) (tag_to_object s) (client_id s)) s)
      | Inr u \<Rightarrow> (Inr (), log_call (AppSetObjects (app_id s) (tag_to_object s) (client_id s)) s))"

definition create_all_objects :: "nat \<Rightarrow> remote \<Rightarrow> blueprint \<Rightarrow> (string \<Rightarrow> string) \<Rightarrow> app
    \<Rightarrow> ((error + unit) \<times> app) option" where
  "create_all_objects n rem bp uuid4 s =
     (case load_tags n rem bp uuid4 (map fst bp) s of
        None \<Rightarrow> None
      | Some (Inl e, s1) \<Rightarrow> Some (Inl e, s1)
      | Some (Inr u, s1) \<Rightarrow> Some (set_objects_call rem s1))"

subsection \<open>Auxiliary notions\<close>

text \<open>
  \<open>frame bp s s'\<close> collects what a run from \<open>s\<close> to \<open>s'\<close> leaves alone: the
  identity of the session, the ids known from an earlier deployment, the calls already
  logged (the new ones are no \<open>AppSetObjects\<close>) and every entry of the two caches;
  the only tags added to \<open>_tag_to_object\<close> are tags of the blueprint.

  \<open>fresh_refs\<close> says of a run of the loop of \<open>create_all_objects\<close> that the uuid
  drawn for each new reference is not yet a key of \<open>_local_uuid_to_object_id\<close> when
  the reference is loaded, which is what \<open>uuid.uuid4\<close> is used for.
\<close>

fun is_AppSetObjects :: "event \<Rightarrow> bool" where
  "is_AppSetObjects (AppSetObjects a m c) = True"
| "is_AppSetObjects e = False"

definition frame :: "blueprint \<Rightarrow> app \<Rightarrow> app \<Rightarrow> bool" where
  "frame bp s s' \<longleftrightarrow>
     app_id s' = app_id s \<and> client_id s' = client_id s \<and>
     tag_to_existing_id s' = tag_to_existing_id s \<and>
     (\<exists>es. calls s' = calls s @ es \<and> (\<forall>e\<in>set es. \<not> is_AppSetObjects e)) \<and>
     (\<forall>k v. local_uuid_to_object_id s k = Some v \<longrightarrow> local_uuid_to_object_id s' k = Some v) \<and>
     (\<forall>t v. map_of (tag_to_object s) t = Some v \<longrightarrow> map_of (tag_to_object s') t = Some v) \<and>
     fst ` set (tag_to_object s') \<subseteq> fst ` set (tag_to_object s) \<union> fst ` set bp"

fun fresh_refs :: "nat \<Rightarrow> remote \<Rightarrow> blueprint \<Rightarrow> (string \<Rightarrow> string) \<Rightarrow> string list \<Rightarrow> app \<Rightarrow> bool" where
  "fresh_refs n rem bp uuid4 [] s = True"
| "fresh_refs n rem bp uuid4 (tag # tags) s =
     (local_uuid_to_object_id s (uuid4 tag) = None \<and>
      (case load n rem bp (ref (uuid4 tag) None tag) None s of
         Some (Inr v, s1) \<Rightarrow> fresh_refs n rem bp uuid4 tags s1
       | _ \<Rightarrow> True))"

subsection \<open>A small server and some objects\<close>

text \<open>
  A server in the manner of the \<open>servicer\<close> of the client tests: the application
  \<open>my-queue\<close> is deployed and its object has the id \<open>qu-1\<close>, every other lookup
  finds nothing; queues, images and functions are created with fixed ids.
\<close>

definition servicer :: remote where
  "servicer =
     \<lparr>lookup_object = (\<lambda>h an t ns. if an = ''my-queue'' then Inr (''qu-1'', []) else Inr ([], ''not found'')),
      set_objects = (\<lambda>h aid ids cid. Inr ()),
      object_rpc = (\<lambda>h m args.
         if m = ''QueueCreate'' then Inr ''qu-1''
         else if m = ''ImageGetOrCreate'' then Inr ''im-1''
         else if m = ''FunctionCreate'' then Inr (''fu-'' @ concat (take 1 args))
         else Inl (RemoteError m)),
      stub_deploy = (\<lambda>h an b. Inr ())\<rparr>"

definition queue :: obj where
  "queue = Definition ''uuid-queue'' (\<lambda>aid ex. AwaitRpc ''QueueCreate'' [aid] (\<lambda>r. Return (Some r)))"

definition image :: obj where
  "image = Definition ''uuid-image'' (\<lambda>aid ex. AwaitRpc ''ImageGetOrCreate'' [aid] (\<lambda>r. Return (Some r)))"

definition broken :: obj where
  "broken = Definition ''uuid-broken'' (\<lambda>aid ex. Return None)"

definition new_app :: app where
  "new_app = App_init ''ap-1'' ''cl-1'' [] None None"

text \<open>
  A function whose creation logic first awaits a reference to the tag \<open>image\<close>, a
  secret that the server refuses to create, a blueprint in which two functions depend on
  one image, and a blueprint whose second tag fails.
\<close>

definition stub_function :: "string \<Rightarrow> obj" where
  "stub_function name =
     Definition (''uuid-'' @ name)
       (\<lambda>aid ex. AwaitObject (ref (''uuid-image-of-'' @ name) None ''image'')
          (\<lambda>im. AwaitRpc ''FunctionCreate'' [name, case im of None \<Rightarrow> [] | Some i \<Rightarrow> i]
             (\<lambda>r. Return (Some r))))"

definition secret :: obj where
  "secret = Definition ''uuid-secret'' (\<lambda>aid ex. AwaitRpc ''SecretCreate'' [aid] (\<lambda>r. Return (Some r)))"

definition diamond :: blueprint where
  "diamond = [(''f'', stub_function ''f''), (''g'', stub_function ''g''), (''image'', image)]"

definition failing :: blueprint where
  "failing = [(''q_1'', queue), (''secret'', secret), (''image'', image)]"

definition ref_uuid :: "string \<Rightarrow> string" where
  "ref_uuid tag = ''uuid-ref-'' @ tag"

definition depth :: nat where
  "depth = Suc (Suc (Suc (Suc (Suc (Suc (Suc (Suc 0)))))))"

text \<open>
  A session that starts with an entry in \<open>_tag_to_object\<close> for a tag that its
  blueprint does not have, as the constructor argument of line 58 and
  \<open>init_container\<close> allow, and a function whose creation logic makes its own call
  before it awaits the image.
\<close>

definition attached_app :: app where
  "attached_app = App_init ''ap-1'' ''cl-1'' [] (Some [(''old'', Some ''qu-9'')]) None"

definition queue_stub :: blueprint where
  "queue_stub = [(''q_1'', queue)]"

definition eager_function :: obj where
  "eager_function =
     Definition ''uuid-h''
       (\<lambda>aid ex. AwaitRpc ''FunctionCreate'' [''h'']
          (\<lambda>r. AwaitObject (ref ''uuid-image-of-h'' None ''image'') (\<lambda>im. Return (Some r))))"

section \<open>Properties\<close>

subsection \<open>What a run of \<open>load\<close> leaves unchanged\<close>

lemma frame_refl: "frame bp s s"
  by (simp add: frame_def)



lemma frameI:
  "app_id s' = app_id s \<Longrightarrow> client_id s' = client_id s \<Longrightarrow>
   tag_to_existing_id s' = tag_to_existing_id s \<Longrightarrow>
   calls s' = calls s @ es \<Longrightarrow> (\<forall>e\<in>set es. \<not> is_AppSetObjects e) \<Longrightarrow>
   (\<And>k v. local_uuid_to_object_id s k = Some v \<Longrightarrow> local_uuid_to_object_id s' k = Some v) \<Longrightarrow>
   (\<And>t v. map_of (tag_to_object s) t = Some v \<Longrightarrow> map_of (tag_to_object s') t = Some v) \<Longrightarrow>
   fst ` set (tag_to_object s') \<subseteq> fst ` set (tag_to_object s) \<union> fst ` set bp \<Longrightarrow>
   frame bp s s'"
  unfolding frame_def
  apply (intro conjI)
        apply assumption
       apply assumption
      apply assumption
     apply (rule exI[of _ es])
     apply (rule conjI)
      apply assumption
     apply assumption
    apply (intro allI impI)
    apply assumption
   apply (intro allI impI)
   apply assumption
  apply assumption
  done

lemma frameD_ids:
  "frame bp s s' \<Longrightarrow> app_id s' = app_id s \<and> client_id s' = client_id s \<and>
     tag_to_existing_id s' = tag_to_existing_id s"
  by (simp add: frame_def)

lemma frameD_calls:
  "frame bp s s' \<Longrightarrow> \<exists>es. calls s' = calls s @ es \<and> (\<forall>e\<in>set es. \<not> is_AppSetObjects e)"
  by (simp add: frame_def)

lemma frameD_cache:
  "frame bp s s' \<Longrightarrow> local_uuid_to_object_id s k = Some v \<Longrightarrow> local_uuid_to_object_id s' k = Some v"
  by (simp add: frame_def)

lemma frameD_tto:
  "frame bp s s' \<Longrightarrow> map_of (tag_to_object s) t = Some v \<Longrightarrow> map_of (tag_to_object s') t = Some v"
  by (simp add: frame_def)

lemma frameD_keys:
  "frame bp s s' \<Longrightarrow> fst ` set (tag_to_object s') \<subseteq> fst ` set (tag_to_object s) \<union> fst ` set bp"
  by (simp add: frame_def)


lemma frame_trans:
  assumes a: "frame bp s s1" and b: "frame bp s1 s2"
  shows "frame bp s s2"
proof -
  from frameD_calls[OF a] obtain es1 where
    e1: "calls s1 = calls s @ es1" "\<forall>e\<in>set es1. \<not> is_AppSetObjects e"
    by (elim exE conjE)
  from frameD_calls[OF b] obtain es2 where
    e2: "calls s2 = calls s1 @ es2" "\<forall>e\<in>set es2. \<not> is_AppSetObjects e"
    by (elim exE conjE)
  have c1: "calls s2 = calls s @ (es1 @ es2)"
    using e1(1) e2(1) by simp
  have c2: "\<forall>e\<in>set (es1 @ es2). \<not> is_AppSetObjects e"
    using e1(2) e2(2) by (simp add: ball_Un)
  have k: "fst ` set (tag_to_object s2) \<subseteq> fst ` set (tag_to_object s) \<union> fst ` set bp"
    using frameD_keys[OF a] frameD_keys[OF b] by blast
  show ?thesis
  proof (rule frameI[where es = "es1 @ es2"])
    show "app_id s2 = app_id s" using frameD_ids[OF a] frameD_ids[OF b] by simp
    show "client_id s2 = client_id s" using frameD_ids[OF a] frameD_ids[OF b] by simp
    show "tag_to_existing_id s2 = tag_to_existing_id s" using frameD_ids[OF a] frameD_ids[OF b] by simp
    show "calls s2 = calls s @ es1 @ es2" by (rule c1)
    show "\<forall>e\<in>set (es1 @ es2). \<not> is_AppSetObjects e" by (rule c2)
    show "local_uuid_to_object_id s2 k = Some v" if "local_uuid_to_object_id s k = Some v" for k v
      by (rule frameD_cache[OF b frameD_cache[OF a that]])
    show "map_of (tag_to_object s2) t = Some v" if "map_of (tag_to_object s) t = Some v" for t v
      by (rule frameD_tto[OF b frameD_tto[OF a that]])
    show "fst ` set (tag_to_object s2) \<subseteq> fst ` set (tag_to_object s) \<union> fst ` set bp" by (rule k)
  qed
qed


lemma frame_log_call: "\<not> is_AppSetObjects e \<Longrightarrow> frame bp s (log_call e s)"
  by (rule frameI[where es = "[e]"]) (simp_all add: log_call_def)

lemma lookup_to_id_state: "snd (lookup_to_id rem an t ns s) = log_call (AppLookupObject an t ns) s"
  by (simp add: lookup_to_id_def split: sum.splits prod.splits)

lemma deploy_definition_state:
  "snd (deploy_definition rem an d s) = log_call (StubDeploy an [(''_object'', d)]) s"
  by (simp add: deploy_definition_def split: sum.splits)

lemma object_call_state: "snd (object_call rem m args s) = log_call (ObjectRpc m args) s"
  by (simp add: object_call_def split: sum.splits)

lemma frame_lookup_to_id: "lookup_to_id rem an t ns s = (r, s') \<Longrightarrow> frame bp s s'"
  using lookup_to_id_state[of rem an t ns s] by (simp add: frame_log_call)

lemma frame_deploy_definition: "deploy_definition rem an d s = (r, s') \<Longrightarrow> frame bp s s'"
  using deploy_definition_state[of rem an d s] by (simp add: frame_log_call)

lemma frame_object_call: "object_call rem m args s = (r, s') \<Longrightarrow> frame bp s s'"
  using object_call_state[of rem m args s] by (simp add: frame_log_call)

lemma store_and_return_state:
  "snd (store_and_return ob v s) =
     s\<lparr>local_uuid_to_object_id := (local_uuid_to_object_id s)(local_uuid ob \<mapsto> v)\<rparr>"
  by (simp add: store_and_return_def)

lemma store_and_return_result:
  "fst (store_and_return ob v s) = (if v = None then Inl Exception_object_id_None else Inr v)"
  by (simp add: store_and_return_def)

lemma frame_store:
  "local_uuid_to_object_id s (local_uuid ob) = None \<Longrightarrow>
   frame bp s (s\<lparr>local_uuid_to_object_id := (local_uuid_to_object_id s)(local_uuid ob \<mapsto> v)\<rparr>)"
  by (rule frameI[where es = "[]"]) auto

lemma frame_store_mono:
  assumes f: "frame bp s s1" and n: "local_uuid_to_object_id s (local_uuid ob) = None"
    and st: "store_and_return ob v s1 = (r, s')"
  shows "frame bp s s'"
proof -
  have s': "s' = s1\<lparr>local_uuid_to_object_id := (local_uuid_to_object_id s1)(local_uuid ob \<mapsto> v)\<rparr>"
    using store_and_return_state[of ob v s1] st by simp
  from frameD_calls[OF f] obtain es where
    e: "calls s1 = calls s @ es" "\<forall>e\<in>set es. \<not> is_AppSetObjects e"
    by (elim exE conjE)
  show ?thesis
  proof (rule frameI[where es = es])
    show "local_uuid_to_object_id s' k = Some w" if h: "local_uuid_to_object_id s k = Some w" for k w
    proof -
      have "k \<noteq> local_uuid ob" using h n by auto
      then show ?thesis using frameD_cache[OF f h] by (simp add: s')
    qed
    show "map_of (tag_to_object s') t = Some w" if "map_of (tag_to_object s) t = Some w" for t w
      using frameD_tto[OF f that] by (simp add: s')
  qed (use frameD_ids[OF f] frameD_keys[OF f] e in \<open>simp_all add: s'\<close>)
qed

lemma frame_update_tag:
  assumes f: "frame bp s s1" and n: "map_of (tag_to_object s) t = None"
    and b: "map_of bp t = Some real"
  shows "frame bp s (s1\<lparr>tag_to_object := AList.update t v (tag_to_object s1)\<rparr>)"
proof -
  from frameD_calls[OF f] obtain es where
    e: "calls s1 = calls s @ es" "\<forall>e\<in>set es. \<not> is_AppSetObjects e"
    by (elim exE conjE)
  have tb: "t \<in> fst ` set bp"
    using map_of_SomeD[OF b] by (rule_tac image_eqI[where x = "(t, real)"]) simp_all
  show ?thesis
  proof (rule frameI[where es = es])
    show "map_of (tag_to_object (s1\<lparr>tag_to_object := AList.update t v (tag_to_object s1)\<rparr>)) t' = Some w"
      if h: "map_of (tag_to_object s) t' = Some w" for t' w
    proof -
      have "t' \<noteq> t" using h n by auto
      then show ?thesis using frameD_tto[OF f h] by (simp add: update_conv')
    qed
    show "fst ` set (tag_to_object (s1\<lparr>tag_to_object := AList.update t v (tag_to_object s1)\<rparr>))
          \<subseteq> fst ` set (tag_to_object s) \<union> fst ` set bp"
      using frameD_keys[OF f] tb by (simp add: dom_update)
    show "local_uuid_to_object_id (s1\<lparr>tag_to_object := AList.update t v (tag_to_object s1)\<rparr>) k = Some w"
      if "local_uuid_to_object_id s k = Some w" for k w
      using frameD_cache[OF f that] by simp
  qed (use frameD_ids[OF f] e in simp_all)
qed


lemma load_cached:
  "local_uuid_to_object_id s (local_uuid ob) = Some v \<Longrightarrow>
   load (Suc n) rem bp ob ex s = Some (Inr v, s)"
  by simp

lemma load_Definition:
  "local_uuid_to_object_id s u = None \<Longrightarrow>
   load (Suc n) rem bp (Definition u ld) ex s =
     (case intercept_coro n rem bp (ld (app_id s) ex) s of
        None \<Rightarrow> None
      | Some (Inl e, s1) \<Rightarrow> Some (Inl e, s1)
      | Some (Inr object_id, s1) \<Rightarrow>
          (case ex of
             None \<Rightarrow> Some (store_and_return (Definition u ld) object_id s1)
           | Some x \<Rightarrow>
               if object_id \<noteq> Some x \<and> \<not> startswith x ''im-''
               then Some (Inl (Exception_existing_id x object_id), s1)
               else Some (store_and_return (Definition u ld) object_id s1)))"
  by simp

lemma load_Ref_other_app:
  "local_uuid_to_object_id s u = None \<Longrightarrow>
   load (Suc n) rem bp (Ref u (Some an) t ns d) ex s =
     (case (case d of Some x \<Rightarrow> deploy_definition rem an x s | None \<Rightarrow> (Inr (), s)) of
        (Inl e, s1) \<Rightarrow> Some (Inl e, s1)
      | (Inr u1, s1) \<Rightarrow>
          (case lookup_to_id rem an t ns s1 of
             (Inl e, s2) \<Rightarrow> Some (Inl e, s2)
           | (Inr object_id, s2) \<Rightarrow>
               Some (store_and_return (Ref u (Some an) t ns d) (Some object_id) s2)))"
  by simp

lemma load_Ref_same_app:
  "local_uuid_to_object_id s u = None \<Longrightarrow>
   load (Suc n) rem bp (Ref u None t ns None) ex s =
     (case map_of (tag_to_object s) t of
        Some object_id \<Rightarrow> Some (store_and_return (Ref u None t ns None) object_id s)
      | None \<Rightarrow>
          (case map_of bp t of
             None \<Rightarrow> Some (Inl (KeyError t), s)
           | Some real_obj \<Rightarrow>
               (case load n rem bp real_obj (tag_to_existing_id s t) s of
                  None \<Rightarrow> None
                | Some (Inl e, s1) \<Rightarrow> Some (Inl e, s1)
                | Some (Inr object_id, s1) \<Rightarrow>
                    Some (store_and_return (Ref u None t ns None) object_id
                      (s1\<lparr>tag_to_object := AList.update t object_id (tag_to_object s1)\<rparr>)))))"
  by simp

lemma load_Ref_assert:
  "local_uuid_to_object_id s u = None \<Longrightarrow>
   load (Suc n) rem bp (Ref u None t ns (Some d)) ex s = Some (Inl AssertionError, s)"
  by simp


lemma intercept_coro_Suc:
  "intercept_coro (Suc n) rem bp (Return v) s = Some (Inr v, s)"
  "intercept_coro (Suc n) rem bp (Raise e) s = Some (Inl e, s)"
  "intercept_coro (Suc n) rem bp AwaitOther s = Some (Inl AssertionError, s)"
  "intercept_coro (Suc n) rem bp (AwaitObject awaitable k) s =
     (case load n rem bp awaitable None s of
        None \<Rightarrow> None
      | Some (Inl e, s1) \<Rightarrow> Some (Inl e, s1)
      | Some (Inr v, s1) \<Rightarrow> intercept_coro n rem bp (k v) s1)"
  "intercept_coro (Suc n) rem bp (AwaitRpc m args kr) s =
     (case object_call rem m args s of
        (Inl e, s1) \<Rightarrow> Some (Inl e, s1)
      | (Inr r, s1) \<Rightarrow> intercept_coro n rem bp (kr r) s1)"
  by simp_all

lemma load_frame_step:
  assumes L: "\<And>ob ex s r s'. load n rem bp ob ex s = Some (r, s') \<Longrightarrow> frame bp s s'"
    and I: "\<And>c s r s'. intercept_coro n rem bp c s = Some (r, s') \<Longrightarrow> frame bp s s'"
    and h: "load (Suc n) rem bp ob ex s = Some (r, s')"
  shows "frame bp s s'"
proof (cases "local_uuid_to_object_id s (local_uuid ob)")
  case (Some v)
  then show ?thesis using h load_cached[OF Some] by (simp add: frame_refl del: load.simps)
next
  case None
  show ?thesis
  proof (cases ob)
    case (Definition u ld)
    have n: "local_uuid_to_object_id s u = None" using None Definition by simp
    note eq = h[unfolded Definition load_Definition[OF n]]
    show ?thesis
    proof (cases "intercept_coro n rem bp (ld (app_id s) ex) s")
      case N: None
      with eq show ?thesis by simp
    next
      case (Some p)
      obtain r1 s1 where p: "p = (r1, s1)" by (cases p)
      have f1: "frame bp s s1" using I Some p by blast
      show ?thesis
      proof (cases r1)
        case (Inl e)
        with eq Some p f1 show ?thesis by simp
      next
        case (Inr oid)
        have "s' = s1 \<or> store_and_return (Definition u ld) oid s1 = (r, s')"
          using eq Some p Inr by (simp split: option.splits if_splits)
        then show ?thesis
        proof
          assume "s' = s1"
          then show ?thesis using f1 by simp
        next
          assume "store_and_return (Definition u ld) oid s1 = (r, s')"
          then show ?thesis by (rule frame_store_mono[OF f1, rotated]) (simp add: n)
        qed
      qed
    qed
  next
    case (Ref u an t ns d)
    have n: "local_uuid_to_object_id s u = None" using None Ref by simp
    show ?thesis
    proof (cases an)
      case (Some a)
      note eq = h[unfolded Ref Some load_Ref_other_app[OF n]]
      obtain r0 s0 where d0: "(case d of Some x \<Rightarrow> deploy_definition rem a x s | None \<Rightarrow> (Inr (), s)) = (r0, s0)"
        by (cases "(case d of Some x \<Rightarrow> deploy_definition rem a x s | None \<Rightarrow> (Inr (), s))")
      have f0: "frame bp s s0"
        using d0 by (cases d) (auto simp: frame_refl dest: frame_deploy_definition[where bp = bp])
      show ?thesis
      proof (cases r0)
        case (Inl e)
        with eq d0 f0 show ?thesis by simp
      next
        case (Inr u1)
        obtain r2 s2 where l2: "lookup_to_id rem a t ns s0 = (r2, s2)"
          by (cases "lookup_to_id rem a t ns s0")
        have f2: "frame bp s s2" using frame_trans[OF f0 frame_lookup_to_id[OF l2]] .
        show ?thesis
        proof (cases r2)
          case i: (Inl e)
          with eq d0 Inr l2 f2 show ?thesis by simp
        next
          case i: (Inr oid)
          have "store_and_return (Ref u (Some a) t ns d) (Some oid) s2 = (r, s')"
            using eq d0 Inr l2 i by simp
          then show ?thesis by (rule frame_store_mono[OF f2, rotated]) (simp add: n)
        qed
      qed
    next
      case N2: None
      show ?thesis
      proof (cases d)
        case (Some x)
        then show ?thesis
          using h[unfolded Ref N2 Some load_Ref_assert[OF n]] by (simp add: frame_refl)
      next
        case N3: None
        note eq = h[unfolded Ref N2 N3 load_Ref_same_app[OF n]]
        show ?thesis
        proof (cases "map_of (tag_to_object s) t")
          case (Some oid)
          then have "store_and_return (Ref u None t ns None) oid s = (r, s')" using eq by simp
          then show ?thesis by (rule frame_store_mono[OF frame_refl, rotated]) (simp add: n)
        next
          case N4: None
          show ?thesis
          proof (cases "map_of bp t")
            case N5: None
            with eq N4 show ?thesis by (simp add: frame_refl)
          next
            case (Some real)
            show ?thesis
            proof (cases "load n rem bp real (tag_to_existing_id s t) s")
              case N6: None
              with eq N4 Some show ?thesis by simp
            next
              case S6: (Some p)
              obtain r1 s1 where p: "p = (r1, s1)" by (cases p)
              have f1: "frame bp s s1" using L S6 p by blast
              show ?thesis
              proof (cases r1)
                case (Inl e)
                with eq N4 Some S6 p f1 show ?thesis by simp
              next
                case (Inr oid)
                have st: "store_and_return (Ref u None t ns None) oid
                     (s1\<lparr>tag_to_object := AList.update t oid (tag_to_object s1)\<rparr>) = (r, s')"
                  using eq N4 Some S6 p Inr by simp
                show ?thesis
                  by (rule frame_store_mono[OF frame_update_tag[OF f1 N4 Some] _ st]) (simp add: n)
              qed
            qed
          qed
        qed
      qed
    qed
  qed
qed

lemma intercept_frame_step:
  assumes L: "\<And>ob ex s r s'. load n rem bp ob ex s = Some (r, s') \<Longrightarrow> frame bp s s'"
    and I: "\<And>c s r s'. intercept_coro n rem bp c s = Some (r, s') \<Longrightarrow> frame bp s s'"
    and h: "intercept_coro (Suc n) rem bp c s = Some (r, s')"
  shows "frame bp s s'"
proof (cases c)
  case (Return v)
  with h show ?thesis by (simp add: frame_refl)
next
  case (Raise e)
  with h show ?thesis by (simp add: frame_refl)
next
  case AwaitOther
  with h show ?thesis by (simp add: frame_refl)
next
  case (AwaitObject a k)
  note eq = h[unfolded AwaitObject intercept_coro_Suc]
  show ?thesis
  proof (cases "load n rem bp a None s")
    case None
    with eq show ?thesis by simp
  next
    case (Some p)
    obtain r1 s1 where p: "p = (r1, s1)" by (cases p)
    have f1: "frame bp s s1" using L Some p by blast
    show ?thesis
    proof (cases r1)
      case (Inl e)
      with eq Some p f1 show ?thesis by simp
    next
      case (Inr v)
      then have "intercept_coro n rem bp (k v) s1 = Some (r, s')" using eq Some p by simp
      then show ?thesis using frame_trans[OF f1] I by blast
    qed
  qed
next
  case (AwaitRpc m args k)
  note eq = h[unfolded AwaitRpc intercept_coro_Suc]
  obtain r1 s1 where c1: "object_call rem m args s = (r1, s1)" by (cases "object_call rem m args s")
  have f1: "frame bp s s1" using frame_object_call[OF c1] .
  show ?thesis
  proof (cases r1)
    case (Inl e)
    with eq c1 f1 show ?thesis by simp
  next
    case (Inr v)
    then have "intercept_coro n rem bp (k v) s1 = Some (r, s')" using eq c1 by simp
    then show ?thesis using frame_trans[OF f1] I by blast
  qed
qed

lemma load_frame_aux:
  "(\<forall>ob ex s r s'. load n rem bp ob ex s = Some (r, s') \<longrightarrow> frame bp s s') \<and>
   (\<forall>c s r s'. intercept_coro n rem bp c s = Some (r, s') \<longrightarrow> frame bp s s')"
proof (induction n)
  case 0
  show ?case by simp
next
  case (Suc n)
  have L: "\<And>ob ex s r s'. load n rem bp ob ex s = Some (r, s') \<Longrightarrow> frame bp s s'"
    using Suc by blast
  have I: "\<And>c s r s'. intercept_coro n rem bp c s = Some (r, s') \<Longrightarrow> frame bp s s'"
    using Suc by blast
  show ?case
  proof (intro conjI allI impI)
    fix ob ex s r s'
    assume h: "load (Suc n) rem bp ob ex s = Some (r, s')"
    show "frame bp s s'" by (rule load_frame_step[of n rem bp, OF L I h])
  next
    fix c s r s'
    assume h: "intercept_coro (Suc n) rem bp c s = Some (r, s')"
    show "frame bp s s'" by (rule intercept_frame_step[of n rem bp, OF L I h])
  qed
qed

lemma load_frame: "load n rem bp ob ex s = Some (r, s') \<Longrightarrow> frame bp s s'"
  using load_frame_aux by blast

lemma intercept_coro_frame: "intercept_coro n rem bp c s = Some (r, s') \<Longrightarrow> frame bp s s'"
  using load_frame_aux by blast


lemma store_and_return_Inr:
  "store_and_return ob v s = (Inr w, s') \<Longrightarrow>
   w = v \<and> v \<noteq> None \<and>
   s' = s\<lparr>local_uuid_to_object_id := (local_uuid_to_object_id s)(local_uuid ob \<mapsto> v)\<rparr>"
  by (auto simp add: store_and_return_def split: if_splits)

lemma load_Inr_cases:
  assumes h: "load (Suc n) rem bp ob ex s = Some (Inr v, s')"
  shows "(local_uuid_to_object_id s (local_uuid ob) = Some v \<and> s' = s) \<or>
         (local_uuid_to_object_id s (local_uuid ob) = None \<and>
          (\<exists>s1. store_and_return ob v s1 = (Inr v, s')))"
proof (cases "local_uuid_to_object_id s (local_uuid ob)")
  case (Some w)
  then show ?thesis using h by simp
next
  case None
  have "\<exists>s1 w. store_and_return ob w s1 = (Inr v, s')"
    using h None
    by (cases ob) (auto split: option.splits sum.splits prod.splits if_splits)
  then show ?thesis using None store_and_return_Inr by blast
qed


lemma load_returns_stored:
  assumes "load n rem bp ob ex s = Some (Inr v, s')"
  shows "local_uuid_to_object_id s' (local_uuid ob) = Some v"
proof (cases n)
  case 0
  with assms show ?thesis by simp
next
  case (Suc m)
  from load_Inr_cases[OF assms[unfolded Suc]] show ?thesis
    by (auto dest: store_and_return_Inr)
qed

lemma load_same_app_resolved:
  assumes n: "local_uuid_to_object_id s u = None"
    and h: "load k rem bp (Ref u None t ns None) ex s = Some (Inr v, s')"
  shows "map_of (tag_to_object s') t = Some v"
proof (cases k)
  case 0
  with h show ?thesis by simp
next
  case (Suc m)
  show ?thesis
    using h[unfolded Suc load_Ref_same_app[OF n]]
    by (auto simp: update_conv' split: option.splits sum.splits prod.splits dest!: store_and_return_Inr)
qed

lemma load_tags_frame:
  "load_tags n rem bp uuid4 tags s = Some (r, s') \<Longrightarrow> frame bp s s'"
proof (induction tags arbitrary: s)
  case Nil
  then show ?case by (simp add: frame_refl)
next
  case (Cons t ts)
  show ?case
  proof (cases "load n rem bp (ref (uuid4 t) None t) None s")
    case None
    with Cons.prems show ?thesis by simp
  next
    case (Some p)
    obtain r1 s1 where p: "p = (r1, s1)" by (cases p)
    have f1: "frame bp s s1" using load_frame Some p by blast
    show ?thesis
    proof (cases r1)
      case (Inl e)
      with Cons.prems Some p f1 show ?thesis by simp
    next
      case (Inr v)
      then have "load_tags n rem bp uuid4 ts s1 = Some (r, s')" using Cons.prems Some p by simp
      then show ?thesis using frame_trans[OF f1] Cons.IH by blast
    qed
  qed
qed

lemma load_tags_append:
  "load_tags n rem bp uuid4 (xs @ ys) s =
     (case load_tags n rem bp uuid4 xs s of
        None \<Rightarrow> None
      | Some (Inl e, s1) \<Rightarrow> Some (Inl e, s1)
      | Some (Inr u, s1) \<Rightarrow> load_tags n rem bp uuid4 ys s1)"
  by (induction xs arbitrary: s) (auto split: option.splits sum.splits prod.splits)

lemma load_tags_resolved:
  "fresh_refs n rem bp uuid4 tags s \<Longrightarrow> load_tags n rem bp uuid4 tags s = Some (Inr u, s') \<Longrightarrow>
   t \<in> set tags \<Longrightarrow> map_of (tag_to_object s') t \<noteq> None"
proof (induction tags arbitrary: s)
  case Nil
  then show ?case by simp
next
  case (Cons a ts)
  from Cons.prems(2) obtain v s1 where
    l: "load n rem bp (ref (uuid4 a) None a) None s = Some (Inr v, s1)"
    and rest: "load_tags n rem bp uuid4 ts s1 = Some (Inr u, s')"
    by (auto split: option.splits sum.splits prod.splits)
  have fr: "fresh_refs n rem bp uuid4 ts s1" and nn: "local_uuid_to_object_id s (uuid4 a) = None"
    using Cons.prems(1) l by simp_all
  show ?case
  proof (cases "t = a")
    case True
    have "map_of (tag_to_object s1) a = Some v"
      using load_same_app_resolved[OF nn l[unfolded ref_def]] .
    then have "map_of (tag_to_object s') a = Some v"
      using frameD_tto[OF load_tags_frame[OF rest]] by blast
    then show ?thesis using True by simp
  next
    case False
    then have "t \<in> set ts" using Cons.prems(3) by simp
    then show ?thesis using Cons.IH[OF fr rest] by blast
  qed
qed

lemma frame_calls_prefix: "frame bp s s' \<Longrightarrow> take (length (calls s)) (calls s') = calls s"
  using frameD_calls[of bp s s'] by auto

lemma frame_no_set_objects:
  "frame bp s s' \<Longrightarrow> filter is_AppSetObjects (drop (length (calls s)) (calls s')) = []"
  using frameD_calls[of bp s s'] by (auto simp: filter_empty_conv)

lemma load_fresh_Inr_not_None:
  assumes "local_uuid_to_object_id s (local_uuid ob) = None"
    and "load n rem bp ob ex s = Some (Inr v, s')"
  shows "v \<noteq> None"
proof (cases n)
  case 0
  with assms show ?thesis by simp
next
  case (Suc m)
  from load_Inr_cases[OF assms(2)[unfolded Suc]] assms(1) show ?thesis
    by (auto dest: store_and_return_Inr)
qed

lemma set_objects_call_state:
  "snd (set_objects_call rem s) = log_call (AppSetObjects (app_id s) (tag_to_object s) (client_id s)) s"
  by (simp add: set_objects_call_def split: sum.splits)

subsection \<open>Runs of the small server\<close>

lemmas fixture_defs = depth_def servicer_def diamond_def failing_def ref_uuid_def new_app_def App_init_def
  attached_app_def queue_stub_def eager_function_def
  stub_function_def image_def queue_def secret_def ref_def create_all_objects_def set_objects_call_def
  object_call_def log_call_def store_and_return_def

subsection \<open>The claims\<close>

text \<open>
  Claim C1. A \<open>load\<close> that returns an id leaves it stored under the uuid of its node.
  Once a uuid has an entry, every \<open>load\<close> of a node with that uuid returns the stored
  id and the session unchanged (no call is logged, no creation logic runs), whatever
  the existing id passed, and no \<open>load\<close> of any node changes the entry.
\<close>

theorem load_memoized:
  "(load k rem bp ob ex s0 = Some (Inr v, s) \<longrightarrow> local_uuid_to_object_id s (local_uuid ob) = Some v) \<and>
   (local_uuid_to_object_id s (local_uuid ob) = Some v \<longrightarrow>
      (\<forall>ob' ex' n. local_uuid ob' = local_uuid ob \<longrightarrow>
          load (Suc n) rem bp ob' ex' s = Some (Inr v, s)) \<and>
      (\<forall>ob' ex' m r s'. load m rem bp ob' ex' s = Some (r, s') \<longrightarrow>
          local_uuid_to_object_id s' (local_uuid ob) = Some v))"
proof (intro conjI impI allI)
  assume "load k rem bp ob ex s0 = Some (Inr v, s)"
  then show "local_uuid_to_object_id s (local_uuid ob) = Some v" by (rule load_returns_stored)
next
  fix ob' :: obj and ex' n
  assume "local_uuid_to_object_id s (local_uuid ob) = Some v" "local_uuid ob' = local_uuid ob"
  then show "load (Suc n) rem bp ob' ex' s = Some (Inr v, s)" by (simp add: load_cached del: load.simps)
next
  fix ob' ex' m r s'
  assume c: "local_uuid_to_object_id s (local_uuid ob) = Some v"
    and l: "load m rem bp ob' ex' s = Some (r, s')"
  show "local_uuid_to_object_id s' (local_uuid ob) = Some v"
    by (rule frameD_cache[OF load_frame[OF l] c])
qed

theorem load_memoized_witness:
  "load (Suc (Suc (Suc 0))) servicer [] queue None new_app =
     Some (Inr (Some ''qu-1''),
       new_app\<lparr>local_uuid_to_object_id := [''uuid-queue'' \<mapsto> Some ''qu-1''],
         calls := [ObjectRpc ''QueueCreate'' [''ap-1'']]\<rparr>) \<and>
   load (Suc 0) servicer [] queue (Some ''qu-0'')
       (new_app\<lparr>local_uuid_to_object_id := [''uuid-queue'' \<mapsto> Some ''qu-1''],
         calls := [ObjectRpc ''QueueCreate'' [''ap-1'']]\<rparr>) =
     Some (Inr (Some ''qu-1''),
       new_app\<lparr>local_uuid_to_object_id := [''uuid-queue'' \<mapsto> Some ''qu-1''],
         calls := [ObjectRpc ''QueueCreate'' [''ap-1'']]\<rparr>) \<and>
   local_uuid_to_object_id
       (new_app\<lparr>local_uuid_to_object_id := [''uuid-queue'' \<mapsto> Some ''qu-1'', ''uuid-image'' \<mapsto> Some ''im-1''],
         calls := [ObjectRpc ''QueueCreate'' [''ap-1''], ObjectRpc ''ImageGetOrCreate'' [''ap-1'']]\<rparr>)
       ''uuid-queue'' = Some (Some ''qu-1'')"
proof -
  let ?s = "new_app\<lparr>local_uuid_to_object_id := [''uuid-queue'' \<mapsto> Some ''qu-1''],
         calls := [ObjectRpc ''QueueCreate'' [''ap-1'']]\<rparr>"
  let ?s' = "new_app\<lparr>local_uuid_to_object_id := [''uuid-queue'' \<mapsto> Some ''qu-1'', ''uuid-image'' \<mapsto> Some ''im-1''],
         calls := [ObjectRpc ''QueueCreate'' [''ap-1''], ObjectRpc ''ImageGetOrCreate'' [''ap-1'']]\<rparr>"
  have first: "load (Suc (Suc (Suc 0))) servicer [] queue None new_app = Some (Inr (Some ''qu-1''), ?s)"
    by (simp add: queue_def servicer_def new_app_def App_init_def object_call_def log_call_def
        store_and_return_def)
  have other: "load (Suc (Suc (Suc 0))) servicer [] image None ?s = Some (Inr (Some ''im-1''), ?s')"
    by (simp add: image_def servicer_def new_app_def App_init_def object_call_def log_call_def
        store_and_return_def fun_upd_twist)
  note m = load_memoized[where k = "Suc (Suc (Suc 0))" and rem = servicer and bp = "[]" and ob = queue
      and ex = None and ?s0.0 = new_app and v = "Some ''qu-1''" and s = ?s]
  have stored: "local_uuid_to_object_id ?s (local_uuid queue) = Some (Some ''qu-1'')"
    using m first by blast
  have hit: "load (Suc 0) servicer [] queue (Some ''qu-0'') ?s = Some (Inr (Some ''qu-1''), ?s)"
    using m stored by blast
  have kept: "local_uuid_to_object_id ?s' (local_uuid queue) = Some (Some ''qu-1'')"
    using m stored other by blast
  show ?thesis using first hit kept by (simp add: queue_def del: load.simps)
qed

text \<open>
  Claim C2, as stated, fails: a reference to another application is loaded with the
  existing id \<open>qu-0\<close>, the lookup produces \<open>qu-1\<close>, the existing id has no prefix
  \<open>im-\<close>, and \<open>load\<close> returns \<open>qu-1\<close>. The check of lines 126 to 135 belongs to
  the branch of the nodes that are not references.
\<close>

theorem load_reference_not_reconciled:
  "load (Suc 0) servicer [] (Ref ''uuid-ref'' (Some ''my-queue'') ''q'' None None) (Some ''qu-0'') new_app =
     Some (Inr (Some ''qu-1''),
       new_app\<lparr>local_uuid_to_object_id := [''uuid-ref'' \<mapsto> Some ''qu-1''],
         calls := [AppLookupObject ''my-queue'' ''q'' None]\<rparr>) \<and>
   ''qu-1'' \<noteq> ''qu-0'' \<and> \<not> startswith ''qu-0'' ''im-''"
  by (simp add: servicer_def new_app_def App_init_def lookup_to_id_def log_call_def
      store_and_return_def startswith_def)

text \<open>
  Claim C2, amended. For a node that is not a reference and not memoised, loaded with
  an existing id, whose creation logic produces an id: if the produced id differs from
  the existing id and the existing id does not start with \<open>im-\<close>, \<open>load\<close> raises the
  exception of line 133 and stores nothing; otherwise it stores and returns the produced
  id.
\<close>

theorem load_existing_id_reconciled:
  assumes "local_uuid_to_object_id s u = None"
    and "intercept_coro n rem bp (ld (app_id s) (Some ex)) s = Some (Inr (Some object_id), s1)"
  shows "load (Suc n) rem bp (Definition u ld) (Some ex) s =
     (if object_id \<noteq> ex \<and> \<not> startswith ex ''im-''
      then Some (Inl (Exception_existing_id ex (Some object_id)), s1)
      else Some (Inr (Some object_id),
             s1\<lparr>local_uuid_to_object_id := (local_uuid_to_object_id s1)(u \<mapsto> Some object_id)\<rparr>))"
  using assms by (simp add: load_Definition store_and_return_def del: load.simps)

theorem load_existing_id_reconciled_witness:
  "load (Suc (Suc (Suc 0))) servicer [] queue (Some ''qu-0'') new_app =
     Some (Inl (Exception_existing_id ''qu-0'' (Some ''qu-1'')),
       new_app\<lparr>calls := [ObjectRpc ''QueueCreate'' [''ap-1'']]\<rparr>) \<and>
   load (Suc (Suc (Suc 0))) servicer [] queue (Some ''qu-1'') new_app =
     Some (Inr (Some ''qu-1''),
       new_app\<lparr>local_uuid_to_object_id := [''uuid-queue'' \<mapsto> Some ''qu-1''],
         calls := [ObjectRpc ''QueueCreate'' [''ap-1'']]\<rparr>) \<and>
   load (Suc (Suc (Suc 0))) servicer [] image (Some ''im-0'') new_app =
     Some (Inr (Some ''im-1''),
       new_app\<lparr>local_uuid_to_object_id := [''uuid-image'' \<mapsto> Some ''im-1''],
         calls := [ObjectRpc ''ImageGetOrCreate'' [''ap-1'']]\<rparr>)"
proof -
  let ?q = "\<lambda>aid (ex :: string option). AwaitRpc ''QueueCreate'' [aid] (\<lambda>r. Return (Some r))"
  let ?i = "\<lambda>aid (ex :: string option). AwaitRpc ''ImageGetOrCreate'' [aid] (\<lambda>r. Return (Some r))"
  let ?sq = "new_app\<lparr>calls := [ObjectRpc ''QueueCreate'' [''ap-1'']]\<rparr>"
  let ?si = "new_app\<lparr>calls := [ObjectRpc ''ImageGetOrCreate'' [''ap-1'']]\<rparr>"
  have q: "intercept_coro (Suc (Suc 0)) servicer [] (?q (app_id new_app) (Some ex)) new_app =
     Some (Inr (Some ''qu-1''), ?sq)" for ex :: string
    by (simp add: servicer_def new_app_def App_init_def object_call_def log_call_def)
  have i: "intercept_coro (Suc (Suc 0)) servicer [] (?i (app_id new_app) (Some ex)) new_app =
     Some (Inr (Some ''im-1''), ?si)" for ex :: string
    by (simp add: servicer_def new_app_def App_init_def object_call_def log_call_def)
  have n: "local_uuid_to_object_id new_app u = None" for u
    by (simp add: new_app_def App_init_def)
  have a: "load (Suc (Suc (Suc 0))) servicer [] (Definition ''uuid-queue'' ?q) (Some ''qu-0'') new_app =
      Some (Inl (Exception_existing_id ''qu-0'' (Some ''qu-1'')), ?sq)"
    using load_existing_id_reconciled[where s = new_app and u = "''uuid-queue''" and n = "Suc (Suc 0)"
        and rem = servicer and bp = "[]" and ld = ?q and ex = "''qu-0''" and object_id = "''qu-1''"
        and ?s1.0 = ?sq, OF n q]
    by (simp add: startswith_def del: load.simps)
  have b: "load (Suc (Suc (Suc 0))) servicer [] (Definition ''uuid-queue'' ?q) (Some ''qu-1'') new_app =
      Some (Inr (Some ''qu-1''),
        ?sq\<lparr>local_uuid_to_object_id := (local_uuid_to_object_id ?sq)(''uuid-queue'' \<mapsto> Some ''qu-1'')\<rparr>)"
    using load_existing_id_reconciled[where s = new_app and u = "''uuid-queue''" and n = "Suc (Suc 0)"
        and rem = servicer and bp = "[]" and ld = ?q and ex = "''qu-1''" and object_id = "''qu-1''"
        and ?s1.0 = ?sq, OF n q]
    by (simp add: startswith_def del: load.simps)
  have c: "load (Suc (Suc (Suc 0))) servicer [] (Definition ''uuid-image'' ?i) (Some ''im-0'') new_app =
      Some (Inr (Some ''im-1''),
        ?si\<lparr>local_uuid_to_object_id := (local_uuid_to_object_id ?si)(''uuid-image'' \<mapsto> Some ''im-1'')\<rparr>)"
    using load_existing_id_reconciled[where s = new_app and u = "''uuid-image''" and n = "Suc (Suc 0)"
        and rem = servicer and bp = "[]" and ld = ?i and ex = "''im-0''" and object_id = "''im-1''"
        and ?s1.0 = ?si, OF n i]
    by (simp add: startswith_def del: load.simps)
  show ?thesis
    using a b c by (simp add: queue_def image_def new_app_def App_init_def del: load.simps)
qed

text \<open>
  Claim C3. For a reference to the same application that is not memoised: if its tag
  is in \<open>_tag_to_object\<close>, \<open>load\<close> returns the id stored there and changes
  nothing but the entry for the uuid of the reference, so no call is made; otherwise it
  reads the node of the tag from the blueprint, loads it with the id that
  \<open>_tag_to_existing_id\<close> has for the tag, and puts the result under the tag in
  \<open>_tag_to_object\<close>. Hence, once one reference to a tag has been resolved, whatever
  is loaded afterwards, another reference to the same tag gets the same id and no call is
  logged for it: the node behind the tag is created once.
\<close>

theorem load_same_app_reference:
  "(local_uuid_to_object_id s u = None \<and> map_of (tag_to_object s) tag = Some (Some i) \<longrightarrow>
      load (Suc n) rem bp (Ref u None tag ns None) ex s =
        Some (Inr (Some i), s\<lparr>local_uuid_to_object_id := (local_uuid_to_object_id s)(u \<mapsto> Some i)\<rparr>)) \<and>
   (local_uuid_to_object_id s u = None \<and> map_of (tag_to_object s) tag = None \<and>
    map_of bp tag = Some real_obj \<and>
    load n rem bp real_obj (tag_to_existing_id s tag) s = Some (Inr (Some i), s1) \<longrightarrow>
      load (Suc n) rem bp (Ref u None tag ns None) ex s =
        Some (Inr (Some i),
          s1\<lparr>tag_to_object := AList.update tag (Some i) (tag_to_object s1),
             local_uuid_to_object_id := (local_uuid_to_object_id s1)(u \<mapsto> Some i)\<rparr>)) \<and>
   (local_uuid_to_object_id s u = None \<and>
    load k rem bp (Ref u None tag ns None) ex s = Some (Inr v, s2) \<and>
    load m rem bp obm exm s2 = Some (r, s3) \<and>
    local_uuid_to_object_id s3 u' = None \<longrightarrow>
      load (Suc n) rem bp (Ref u' None tag ns' None) ex' s3 =
        Some (Inr v, s3\<lparr>local_uuid_to_object_id := (local_uuid_to_object_id s3)(u' \<mapsto> v)\<rparr>))"
proof (intro conjI impI; elim conjE)
  assume "local_uuid_to_object_id s u = None" "map_of (tag_to_object s) tag = Some (Some i)"
  then show "load (Suc n) rem bp (Ref u None tag ns None) ex s =
        Some (Inr (Some i), s\<lparr>local_uuid_to_object_id := (local_uuid_to_object_id s)(u \<mapsto> Some i)\<rparr>)"
    by (simp add: load_Ref_same_app store_and_return_def del: load.simps)
next
  assume "local_uuid_to_object_id s u = None" "map_of (tag_to_object s) tag = None"
    "map_of bp tag = Some real_obj"
    "load n rem bp real_obj (tag_to_existing_id s tag) s = Some (Inr (Some i), s1)"
  then show "load (Suc n) rem bp (Ref u None tag ns None) ex s =
        Some (Inr (Some i),
          s1\<lparr>tag_to_object := AList.update tag (Some i) (tag_to_object s1),
             local_uuid_to_object_id := (local_uuid_to_object_id s1)(u \<mapsto> Some i)\<rparr>)"
    by (simp add: load_Ref_same_app store_and_return_def del: load.simps)
next
  assume n: "local_uuid_to_object_id s u = None"
    and l: "load k rem bp (Ref u None tag ns None) ex s = Some (Inr v, s2)"
    and mid: "load m rem bp obm exm s2 = Some (r, s3)"
    and n': "local_uuid_to_object_id s3 u' = None"
  have "map_of (tag_to_object s2) tag = Some v" by (rule load_same_app_resolved[OF n l])
  then have t: "map_of (tag_to_object s3) tag = Some v" by (rule frameD_tto[OF load_frame[OF mid]])
  have "v \<noteq> None" using load_fresh_Inr_not_None[OF _ l] n by simp
  then show "load (Suc n) rem bp (Ref u' None tag ns' None) ex' s3 =
        Some (Inr v, s3\<lparr>local_uuid_to_object_id := (local_uuid_to_object_id s3)(u' \<mapsto> v)\<rparr>)"
    using n' t by (simp add: load_Ref_same_app store_and_return_def del: load.simps)
qed

theorem load_same_app_reference_witness:
  "load depth servicer diamond (Ref ''uuid-image-of-f'' None ''image'' None None) None new_app =
     Some (Inr (Some ''im-1''),
       new_app\<lparr>tag_to_object := [(''image'', Some ''im-1'')],
         local_uuid_to_object_id := [''uuid-image'' \<mapsto> Some ''im-1'', ''uuid-image-of-f'' \<mapsto> Some ''im-1''],
         calls := [ObjectRpc ''ImageGetOrCreate'' [''ap-1'']]\<rparr>) \<and>
   load (Suc 0) servicer diamond (Ref ''uuid-image-of-g'' None ''image'' None None) None
       (new_app\<lparr>tag_to_object := [(''image'', Some ''im-1'')],
         local_uuid_to_object_id := [''uuid-image'' \<mapsto> Some ''im-1'', ''uuid-image-of-f'' \<mapsto> Some ''im-1''],
         calls := [ObjectRpc ''ImageGetOrCreate'' [''ap-1'']]\<rparr>) =
     Some (Inr (Some ''im-1''),
       new_app\<lparr>tag_to_object := [(''image'', Some ''im-1'')],
         local_uuid_to_object_id := [''uuid-image'' \<mapsto> Some ''im-1'', ''uuid-image-of-f'' \<mapsto> Some ''im-1'',
           ''uuid-image-of-g'' \<mapsto> Some ''im-1''],
         calls := [ObjectRpc ''ImageGetOrCreate'' [''ap-1'']]\<rparr>) \<and>
   load (Suc 0) servicer diamond (Ref ''uuid-image-of-g'' None ''image'' None None) None
       (new_app\<lparr>tag_to_object := [(''image'', Some ''im-1'')],
         local_uuid_to_object_id := [''uuid-image'' \<mapsto> Some ''im-1'', ''uuid-image-of-f'' \<mapsto> Some ''im-1'',
           ''uuid-queue'' \<mapsto> Some ''qu-1''],
         calls := [ObjectRpc ''ImageGetOrCreate'' [''ap-1''], ObjectRpc ''QueueCreate'' [''ap-1'']]\<rparr>) =
     Some (Inr (Some ''im-1''),
       new_app\<lparr>tag_to_object := [(''image'', Some ''im-1'')],
         local_uuid_to_object_id := [''uuid-image'' \<mapsto> Some ''im-1'', ''uuid-image-of-f'' \<mapsto> Some ''im-1'',
           ''uuid-queue'' \<mapsto> Some ''qu-1'', ''uuid-image-of-g'' \<mapsto> Some ''im-1''],
         calls := [ObjectRpc ''ImageGetOrCreate'' [''ap-1''], ObjectRpc ''QueueCreate'' [''ap-1'']]\<rparr>)"
proof -
  let ?n = "Suc (Suc (Suc (Suc (Suc (Suc (Suc 0))))))"
  let ?s1 = "new_app\<lparr>local_uuid_to_object_id := [''uuid-image'' \<mapsto> Some ''im-1''],
         calls := [ObjectRpc ''ImageGetOrCreate'' [''ap-1'']]\<rparr>"
  let ?s2 = "new_app\<lparr>tag_to_object := [(''image'', Some ''im-1'')],
         local_uuid_to_object_id := [''uuid-image'' \<mapsto> Some ''im-1'', ''uuid-image-of-f'' \<mapsto> Some ''im-1''],
         calls := [ObjectRpc ''ImageGetOrCreate'' [''ap-1'']]\<rparr>"
  let ?s3 = "new_app\<lparr>tag_to_object := [(''image'', Some ''im-1'')],
         local_uuid_to_object_id := [''uuid-image'' \<mapsto> Some ''im-1'', ''uuid-image-of-f'' \<mapsto> Some ''im-1'',
           ''uuid-queue'' \<mapsto> Some ''qu-1''],
         calls := [ObjectRpc ''ImageGetOrCreate'' [''ap-1''], ObjectRpc ''QueueCreate'' [''ap-1'']]\<rparr>"
  have n0: "local_uuid_to_object_id new_app ''uuid-image-of-f'' = None"
    and t0: "map_of (tag_to_object new_app) ''image'' = None"
    and e0: "tag_to_existing_id new_app ''image'' = None"
    by (simp_all add: new_app_def App_init_def)
  have b: "map_of diamond ''image'' = Some image" by (simp add: diamond_def)
  have l1: "load ?n servicer diamond image (tag_to_existing_id new_app ''image'') new_app =
      Some (Inr (Some ''im-1''), ?s1)"
    unfolding e0 by (simp add: fixture_defs)
  have first: "load (Suc ?n) servicer diamond (Ref ''uuid-image-of-f'' None ''image'' None None) None new_app =
      Some (Inr (Some ''im-1''), ?s2)"
    using load_same_app_reference[where s = new_app and u = "''uuid-image-of-f''" and tag = "''image''"
        and bp = diamond and real_obj = image and n = ?n and rem = servicer and i = "''im-1''"
        and ?s1.0 = ?s1 and ns = None and ex = None] n0 t0 b l1
    by (simp add: new_app_def App_init_def del: load.simps)
  have n2: "local_uuid_to_object_id ?s2 ''uuid-image-of-g'' = None"
    and t2: "map_of (tag_to_object ?s2) ''image'' = Some (Some ''im-1'')"
    by (simp_all add: new_app_def App_init_def)
  have again: "load (Suc 0) servicer diamond (Ref ''uuid-image-of-g'' None ''image'' None None) None ?s2 =
      Some (Inr (Some ''im-1''),
        ?s2\<lparr>local_uuid_to_object_id := (local_uuid_to_object_id ?s2)(''uuid-image-of-g'' \<mapsto> Some ''im-1'')\<rparr>)"
    using load_same_app_reference[where s = ?s2 and u = "''uuid-image-of-g''" and tag = "''image''"
        and bp = diamond and n = 0 and rem = servicer and i = "''im-1''" and ns = None and ex = None] n2 t2
    by blast
  have mid: "load (Suc (Suc (Suc 0))) servicer diamond queue None ?s2 = Some (Inr (Some ''qu-1''), ?s3)"
    by (simp add: fixture_defs)
  have n3: "local_uuid_to_object_id ?s3 ''uuid-image-of-g'' = None"
    by (simp add: new_app_def App_init_def)
  have later: "load (Suc 0) servicer diamond (Ref ''uuid-image-of-g'' None ''image'' None None) None ?s3 =
      Some (Inr (Some ''im-1''),
        ?s3\<lparr>local_uuid_to_object_id := (local_uuid_to_object_id ?s3)(''uuid-image-of-g'' \<mapsto> Some ''im-1'')\<rparr>)"
    using load_same_app_reference[where s = new_app and u = "''uuid-image-of-f''" and tag = "''image''"
        and bp = diamond and k = "Suc ?n" and rem = servicer and v = "Some ''im-1''" and ?s2.0 = ?s2
        and ns = None and ex = None and m = "Suc (Suc (Suc 0))" and obm = queue and exm = None
        and r = "Inr (Some ''qu-1'')" and ?s3.0 = ?s3 and u' = "''uuid-image-of-g''" and n = 0
        and ns' = None and ex' = None] n0 first mid n3
    by blast
  show ?thesis
    using first again later by (simp add: depth_def new_app_def App_init_def del: load.simps)
qed

text \<open>
  Claim C4, as stated, fails: the blueprint has the one tag \<open>q_1\<close>, the session
  starts with an entry for the tag \<open>old\<close>, and the map of the \<open>AppSetObjects\<close> call
  has the tags \<open>old\<close> and \<open>q_1\<close>. Line 153 sends all of \<open>_tag_to_object\<close>,
  and nothing in \<open>create_all_objects\<close> compares it with the blueprint.
\<close>

theorem create_all_objects_registers_old_tags:
  "map_option (\<lambda>p. (fst p, calls (snd p))) (create_all_objects depth servicer queue_stub ref_uuid attached_app) =
     Some (Inr (),
       [ObjectRpc ''QueueCreate'' [''ap-1''],
        AppSetObjects ''ap-1'' [(''old'', Some ''qu-9''), (''q_1'', Some ''qu-1'')] ''cl-1'']) \<and>
   map fst queue_stub = [''q_1'']"
  by (simp add: fixture_defs)

text \<open>
  Claim C4, amended. When \<open>create_all_objects\<close> returns, the loop over the tags has
  finished first, in a session \<open>s1\<close>; the one \<open>AppSetObjects\<close> call among the new
  calls is the last of them and carries \<open>_tag_to_object\<close> of \<open>s1\<close>, whose tags are
  the tags the session had at the start together with the tags of the blueprint, each
  tag of the blueprint with an entry. There is no check that rejects a registration: the
  call is reached only after every load of the loop has returned. The references built
  by the loop have new uuids.
\<close>

theorem create_all_objects_registers_all:
  assumes run: "create_all_objects n rem bp uuid4 s = Some (Inr (), s')"
    and fresh: "fresh_refs n rem bp uuid4 (map fst bp) s"
  shows "\<exists>s1. load_tags n rem bp uuid4 (map fst bp) s = Some (Inr (), s1) \<and>
           s' = s1\<lparr>calls := calls s1 @ [AppSetObjects (app_id s) (tag_to_object s1) (client_id s)]\<rparr> \<and>
           fst ` set (tag_to_object s1) = fst ` set (tag_to_object s) \<union> fst ` set bp \<and>
           list_all (\<lambda>t. map_of (tag_to_object s1) t \<noteq> None) (map fst bp) \<and>
           take (length (calls s)) (calls s1) = calls s \<and>
           filter is_AppSetObjects (drop (length (calls s)) (calls s')) =
             [AppSetObjects (app_id s) (tag_to_object s1) (client_id s)]"
proof -
  from run obtain s1 where
    lt: "load_tags n rem bp uuid4 (map fst bp) s = Some (Inr (), s1)"
    and so: "set_objects_call rem s1 = (Inr (), s')"
    by (auto simp: create_all_objects_def split: option.splits sum.splits prod.splits)
  have f: "frame bp s s1" by (rule load_tags_frame[OF lt])
  have ids: "app_id s1 = app_id s" "client_id s1 = client_id s" using frameD_ids[OF f] by simp_all
  have s': "s' = s1\<lparr>calls := calls s1 @ [AppSetObjects (app_id s) (tag_to_object s1) (client_id s)]\<rparr>"
    using set_objects_call_state[of rem s1] so ids by (simp add: log_call_def)
  have sub: "fst ` set (tag_to_object s1) \<subseteq> fst ` set (tag_to_object s) \<union> fst ` set bp"
    by (rule frameD_keys[OF f])
  have all: "map_of (tag_to_object s1) t \<noteq> None" if "t \<in> set (map fst bp)" for t
    using that by (rule load_tags_resolved[OF fresh lt])
  have sup1: "fst ` set bp \<subseteq> fst ` set (tag_to_object s1)"
  proof
    fix t assume "t \<in> fst ` set bp"
    then have "t \<in> set (map fst bp)" by simp
    then have "map_of (tag_to_object s1) t \<noteq> None" by (rule all)
    then show "t \<in> fst ` set (tag_to_object s1)" by (simp add: map_of_eq_None_iff)
  qed
  have sup2: "fst ` set (tag_to_object s) \<subseteq> fst ` set (tag_to_object s1)"
  proof
    fix t assume "t \<in> fst ` set (tag_to_object s)"
    then have "map_of (tag_to_object s) t \<noteq> None" by (simp add: map_of_eq_None_iff)
    then obtain v where "map_of (tag_to_object s) t = Some v" by blast
    then have "map_of (tag_to_object s1) t = Some v" by (rule frameD_tto[OF f])
    then have "map_of (tag_to_object s1) t \<noteq> None" by simp
    then show "t \<in> fst ` set (tag_to_object s1)" by (simp add: map_of_eq_None_iff)
  qed
  have keys: "fst ` set (tag_to_object s1) = fst ` set (tag_to_object s) \<union> fst ` set bp"
    using sub sup1 sup2 by blast
  have la: "list_all (\<lambda>t. map_of (tag_to_object s1) t \<noteq> None) (map fst bp)"
    using all by (simp add: list_all_iff)
  have pre: "take (length (calls s)) (calls s1) = calls s" by (rule frame_calls_prefix[OF f])
  from frameD_calls[OF f] obtain es where
    es: "calls s1 = calls s @ es" "\<forall>e\<in>set es. \<not> is_AppSetObjects e"
    by (elim exE conjE)
  have "filter is_AppSetObjects es = []" using es(2) by (simp add: filter_empty_conv)
  then have fl: "filter is_AppSetObjects (drop (length (calls s)) (calls s')) =
             [AppSetObjects (app_id s) (tag_to_object s1) (client_id s)]"
    using es(1) by (simp add: s')
  show ?thesis
    using lt s' keys la pre fl by blast
qed

theorem create_all_objects_registers_all_witness:
  "map_option (\<lambda>p. (fst p, calls (snd p))) (create_all_objects depth servicer queue_stub ref_uuid attached_app) =
     Some (Inr (),
       [ObjectRpc ''QueueCreate'' [''ap-1''],
        AppSetObjects ''ap-1'' [(''old'', Some ''qu-9''), (''q_1'', Some ''qu-1'')] ''cl-1'']) \<and>
   filter is_AppSetObjects (calls (snd (the (create_all_objects depth servicer queue_stub ref_uuid attached_app)))) =
     [AppSetObjects ''ap-1'' [(''old'', Some ''qu-9''), (''q_1'', Some ''qu-1'')] ''cl-1''] \<and>
   fst ` set [(''old'', Some ''qu-9''), (''q_1'', Some ''qu-1'')] =
     fst ` set (tag_to_object attached_app) \<union> fst ` set queue_stub"
proof -
  have run: "create_all_objects depth servicer queue_stub ref_uuid attached_app =
     Some (Inr (), snd (the (create_all_objects depth servicer queue_stub ref_uuid attached_app)))"
    by (simp add: fixture_defs)
  have fresh: "fresh_refs depth servicer queue_stub ref_uuid (map fst queue_stub) attached_app"
    by (simp add: fixture_defs)
  from create_all_objects_registers_all[OF run fresh]
  obtain s1 where
    lt: "load_tags depth servicer queue_stub ref_uuid (map fst queue_stub) attached_app = Some (Inr (), s1)"
    and k: "fst ` set (tag_to_object s1) = fst ` set (tag_to_object attached_app) \<union> fst ` set queue_stub"
    and f: "filter is_AppSetObjects
          (drop (length (calls attached_app))
             (calls (snd (the (create_all_objects depth servicer queue_stub ref_uuid attached_app))))) =
        [AppSetObjects (app_id attached_app) (tag_to_object s1) (client_id attached_app)]"
    by blast
  have t: "tag_to_object s1 = [(''old'', Some ''qu-9''), (''q_1'', Some ''qu-1'')]"
    using lt by (auto simp add: fixture_defs)
  have c: "calls attached_app = []" "app_id attached_app = ''ap-1''" "client_id attached_app = ''cl-1''"
    by (simp_all add: attached_app_def App_init_def)
  have r: "map_option (\<lambda>p. (fst p, calls (snd p))) (create_all_objects depth servicer queue_stub ref_uuid attached_app) =
     Some (Inr (),
       [ObjectRpc ''QueueCreate'' [''ap-1''],
        AppSetObjects ''ap-1'' [(''old'', Some ''qu-9''), (''q_1'', Some ''qu-1'')] ''cl-1''])"
    by (simp add: fixture_defs)
  show ?thesis
    using r f k by (simp only: t c drop_0 list.size)
qed

text \<open>
  Claim C5. When the loop has loaded the tags \<open>tags1\<close> and the load of the next tag
  raises \<open>e\<close>, \<open>create_all_objects\<close> raises \<open>e\<close> in the session the failed load
  left: no \<open>AppSetObjects\<close> call is among the new calls, and every entry that
  \<open>_local_uuid_to_object_id\<close> and \<open>_tag_to_object\<close> had after the earlier loads is
  still there.
\<close>

theorem create_all_objects_aborts:
  assumes before: "load_tags n rem bp uuid4 tags1 s = Some (Inr (), s1)"
    and fails: "load n rem bp (ref (uuid4 tag) None tag) None s1 = Some (Inl e, s2)"
    and tags: "map fst bp = tags1 @ tag # tags2"
  shows "create_all_objects n rem bp uuid4 s = Some (Inl e, s2) \<and>
         filter is_AppSetObjects (drop (length (calls s)) (calls s2)) = [] \<and>
         (\<forall>u v. local_uuid_to_object_id s1 u = Some v \<longrightarrow> local_uuid_to_object_id s2 u = Some v) \<and>
         (\<forall>t v. map_of (tag_to_object s1) t = Some v \<longrightarrow> map_of (tag_to_object s2) t = Some v)"
proof -
  have lt: "load_tags n rem bp uuid4 (map fst bp) s = Some (Inl e, s2)"
    using before fails by (simp add: tags load_tags_append)
  have c: "create_all_objects n rem bp uuid4 s = Some (Inl e, s2)"
    using lt by (simp add: create_all_objects_def)
  have f: "frame bp s s2" by (rule load_tags_frame[OF lt])
  have f12: "frame bp s1 s2" by (rule load_frame[OF fails])
  show ?thesis
    using c frame_no_set_objects[OF f] frameD_cache[OF f12] frameD_tto[OF f12] by blast
qed

theorem create_all_objects_aborts_witness:
  "map_option (\<lambda>p. (fst p, tag_to_object (snd p), calls (snd p),
        local_uuid_to_object_id (snd p) ''uuid-queue''))
     (create_all_objects depth servicer failing ref_uuid new_app) =
     Some (Inl (RemoteError ''SecretCreate''), [(''q_1'', Some ''qu-1'')],
       [ObjectRpc ''QueueCreate'' [''ap-1''], ObjectRpc ''SecretCreate'' [''ap-1'']],
       Some (Some ''qu-1'')) \<and>
   filter is_AppSetObjects
     (calls (snd (the (create_all_objects depth servicer failing ref_uuid new_app)))) = []"
proof -
  obtain s1 where before: "load_tags depth servicer failing ref_uuid [''q_1''] new_app = Some (Inr (), s1)"
    by (simp add: fixture_defs)
  obtain s2 where fails: "load depth servicer failing (ref (ref_uuid ''secret'') None ''secret'') None s1 =
      Some (Inl (RemoteError ''SecretCreate''), s2)"
    using before by (auto simp add: fixture_defs)
  have tags: "map fst failing = [''q_1''] @ ''secret'' # [''image'']"
    by (simp add: failing_def)
  note t = create_all_objects_aborts[OF before fails tags]
  have c: "create_all_objects depth servicer failing ref_uuid new_app =
      Some (Inl (RemoteError ''SecretCreate''), s2)"
    using t by blast
  have f: "filter is_AppSetObjects (drop (length (calls new_app)) (calls s2)) = []"
    using t by blast
  have q1: "local_uuid_to_object_id s1 ''uuid-queue'' = Some (Some ''qu-1'')"
    using before by (auto simp add: fixture_defs)
  have q2: "local_uuid_to_object_id s2 ''uuid-queue'' = Some (Some ''qu-1'')"
    using t q1 by blast
  have e: "tag_to_object s2 = [(''q_1'', Some ''qu-1'')]"
      "calls s2 = [ObjectRpc ''QueueCreate'' [''ap-1''], ObjectRpc ''SecretCreate'' [''ap-1'']]"
    using before fails by (auto simp add: fixture_defs)
  have n: "calls new_app = []" by (simp add: new_app_def App_init_def)
  show ?thesis
    using f by (simp add: c q2 e n)
qed




text \<open>
  Claim C7, as stated, fails: the creation logic of \<open>eager_function\<close> makes its own
  call before it awaits the reference to the image, and \<open>load\<close> logs
  \<open>FunctionCreate\<close> before \<open>ImageGetOrCreate\<close>, at a time when neither the image
  nor the reference has an id. \<open>load\<close> runs the creation logic as it is written and
  puts no order on its calls and awaits.
\<close>

theorem load_creation_call_before_dependency:
  "map_option (\<lambda>p. (fst p, calls (snd p))) (load depth servicer diamond eager_function None new_app) =
     Some (Inr (Some ''fu-h''),
       [ObjectRpc ''FunctionCreate'' [''h''], ObjectRpc ''ImageGetOrCreate'' [''ap-1'']]) \<and>
   local_uuid_to_object_id new_app ''uuid-image'' = None \<and>
   local_uuid_to_object_id new_app ''uuid-image-of-h'' = None"
  by (simp add: fixture_defs)

text \<open>
  Claim C7, amended. The calls of a node that is not a reference are those of its
  creation logic. When the creation logic awaits a node, that node is loaded to the end
  first: its calls extend the log, the value returned is stored under its uuid (an id,
  unless the node was memoised before with \<open>None\<close>), and only then does the creation
  logic go on, from the session the load left, so that every later call of the creation
  logic comes after the calls of the awaited node; if the load raises, the creation logic
  makes no further call. \<open>create_all_objects\<close> runs the loop over the tags of the
  blueprint in their order and then registers; the loop loads, for the first tag, a new
  reference to it, then goes on with the rest, and over \<open>tags1 @ tags2\<close> it runs the
  tags of \<open>tags1\<close> to the end before the first tag of \<open>tags2\<close>, each part extending
  the log of the one before.
\<close>

theorem materialization_order:
  "(local_uuid_to_object_id s u = None \<and> load (Suc n) rem bp (Definition u ld) ex s = Some (r, s') \<longrightarrow>
      (\<exists>r1 s1. intercept_coro n rem bp (ld (app_id s) ex) s = Some (r1, s1) \<and> calls s' = calls s1)) \<and>
   (intercept_coro (Suc n) rem bp (AwaitObject dep k) s = Some (rc, sc) \<longrightarrow>
      (\<exists>r1 s1. load n rem bp dep None s = Some (r1, s1) \<and>
         take (length (calls s)) (calls s1) = calls s \<and>
         take (length (calls s1)) (calls sc) = calls s1 \<and>
         (case r1 of
            Inl e \<Rightarrow> rc = Inl e \<and> sc = s1
          | Inr v \<Rightarrow> local_uuid_to_object_id s1 (local_uuid dep) = Some v \<and>
                     (local_uuid_to_object_id s (local_uuid dep) = None \<longrightarrow> v \<noteq> None) \<and>
                     intercept_coro n rem bp (k v) s1 = Some (rc, sc)))) \<and>
   (load_tags n rem bp uuid4 (tags1 @ tags2) s = Some (r', s'') \<longrightarrow>
      (\<exists>r1 s1. load_tags n rem bp uuid4 tags1 s = Some (r1, s1) \<and>
         take (length (calls s)) (calls s1) = calls s \<and>
         take (length (calls s1)) (calls s'') = calls s1 \<and>
         (case r1 of
            Inl e \<Rightarrow> r' = Inl e \<and> s'' = s1
          | Inr x \<Rightarrow> load_tags n rem bp uuid4 tags2 s1 = Some (r', s'')))) \<and>
   (load_tags n rem bp uuid4 (tag # tags) s = Some (rt, st) \<longrightarrow>
      (\<exists>r1 s1. load n rem bp (ref (uuid4 tag) None tag) None s = Some (r1, s1) \<and>
         (case r1 of
            Inl e \<Rightarrow> rt = Inl e \<and> st = s1
          | Inr v \<Rightarrow> load_tags n rem bp uuid4 tags s1 = Some (rt, st)))) \<and>
   (create_all_objects n rem bp uuid4 s = Some (ra, sa) \<longrightarrow>
      (\<exists>r1 s1. load_tags n rem bp uuid4 (map fst bp) s = Some (r1, s1) \<and>
         take (length (calls s)) (calls s1) = calls s \<and>
         (case r1 of
            Inl e \<Rightarrow> ra = Inl e \<and> sa = s1
          | Inr x \<Rightarrow> calls sa = calls s1 @ [AppSetObjects (app_id s1) (tag_to_object s1) (client_id s1)])))"
proof (intro conjI impI)
  assume "local_uuid_to_object_id s u = None \<and> load (Suc n) rem bp (Definition u ld) ex s = Some (r, s')"
  then show "\<exists>r1 s1. intercept_coro n rem bp (ld (app_id s) ex) s = Some (r1, s1) \<and> calls s' = calls s1"
    by (auto simp: load_Definition store_and_return_def simp del: load.simps
        split: option.splits sum.splits prod.splits if_splits)
next
  assume h: "intercept_coro (Suc n) rem bp (AwaitObject dep k) s = Some (rc, sc)"
  note eq = h[unfolded intercept_coro_Suc]
  from eq obtain r1 s1 where l: "load n rem bp dep None s = Some (r1, s1)"
    by (cases "load n rem bp dep None s") auto
  have p1: "take (length (calls s)) (calls s1) = calls s"
    by (rule frame_calls_prefix[OF load_frame[OF l]])
  show "\<exists>r1 s1. load n rem bp dep None s = Some (r1, s1) \<and>
         take (length (calls s)) (calls s1) = calls s \<and>
         take (length (calls s1)) (calls sc) = calls s1 \<and>
         (case r1 of
            Inl e \<Rightarrow> rc = Inl e \<and> sc = s1
          | Inr v \<Rightarrow> local_uuid_to_object_id s1 (local_uuid dep) = Some v \<and>
                     (local_uuid_to_object_id s (local_uuid dep) = None \<longrightarrow> v \<noteq> None) \<and>
                     intercept_coro n rem bp (k v) s1 = Some (rc, sc))"
  proof (cases r1)
    case (Inl e)
    then have "rc = Inl e \<and> sc = s1" using eq l by simp
    then show ?thesis using l p1 Inl by simp
  next
    case (Inr v)
    then have c: "intercept_coro n rem bp (k v) s1 = Some (rc, sc)" using eq l by simp
    have p2: "take (length (calls s1)) (calls sc) = calls s1"
      by (rule frame_calls_prefix[OF intercept_coro_frame[OF c]])
    have st: "local_uuid_to_object_id s1 (local_uuid dep) = Some v"
      by (rule load_returns_stored[OF l[unfolded Inr]])
    have nn: "local_uuid_to_object_id s (local_uuid dep) = None \<longrightarrow> v \<noteq> None"
      using load_fresh_Inr_not_None[OF _ l[unfolded Inr]] by blast
    show ?thesis using l p1 p2 c st nn Inr by simp
  qed
next
  assume h: "load_tags n rem bp uuid4 (tags1 @ tags2) s = Some (r', s'')"
  note eq = h[unfolded load_tags_append]
  from eq obtain r1 s1 where l: "load_tags n rem bp uuid4 tags1 s = Some (r1, s1)"
    by (cases "load_tags n rem bp uuid4 tags1 s") auto
  have p1: "take (length (calls s)) (calls s1) = calls s"
    by (rule frame_calls_prefix[OF load_tags_frame[OF l]])
  show "\<exists>r1 s1. load_tags n rem bp uuid4 tags1 s = Some (r1, s1) \<and>
         take (length (calls s)) (calls s1) = calls s \<and>
         take (length (calls s1)) (calls s'') = calls s1 \<and>
         (case r1 of
            Inl e \<Rightarrow> r' = Inl e \<and> s'' = s1
          | Inr x \<Rightarrow> load_tags n rem bp uuid4 tags2 s1 = Some (r', s''))"
  proof (cases r1)
    case (Inl e)
    then have "r' = Inl e \<and> s'' = s1" using eq l by simp
    then show ?thesis using l p1 Inl by simp
  next
    case (Inr x)
    then have c: "load_tags n rem bp uuid4 tags2 s1 = Some (r', s'')" using eq l by simp
    have p2: "take (length (calls s1)) (calls s'') = calls s1"
      by (rule frame_calls_prefix[OF load_tags_frame[OF c]])
    show ?thesis using l p1 p2 c Inr by simp
  qed
next
  assume h: "load_tags n rem bp uuid4 (tag # tags) s = Some (rt, st)"
  then obtain r1 s1 where l: "load n rem bp (ref (uuid4 tag) None tag) None s = Some (r1, s1)"
    by (cases "load n rem bp (ref (uuid4 tag) None tag) None s") auto
  show "\<exists>r1 s1. load n rem bp (ref (uuid4 tag) None tag) None s = Some (r1, s1) \<and>
         (case r1 of
            Inl e \<Rightarrow> rt = Inl e \<and> st = s1
          | Inr v \<Rightarrow> load_tags n rem bp uuid4 tags s1 = Some (rt, st))"
    using h l by (cases r1) simp_all
next
  assume h: "create_all_objects n rem bp uuid4 s = Some (ra, sa)"
  then obtain r1 s1 where l: "load_tags n rem bp uuid4 (map fst bp) s = Some (r1, s1)"
    by (cases "load_tags n rem bp uuid4 (map fst bp) s") (auto simp: create_all_objects_def)
  have p1: "take (length (calls s)) (calls s1) = calls s"
    by (rule frame_calls_prefix[OF load_tags_frame[OF l]])
  have "case r1 of
            Inl e \<Rightarrow> ra = Inl e \<and> sa = s1
          | Inr x \<Rightarrow> calls sa = calls s1 @ [AppSetObjects (app_id s1) (tag_to_object s1) (client_id s1)]"
  proof (cases r1)
    case (Inl e)
    then show ?thesis using h l by (auto simp: create_all_objects_def)
  next
    case (Inr x)
    then have "sa = snd (set_objects_call rem s1)" using h l by (auto simp: create_all_objects_def)
    then show ?thesis using Inr by (simp add: set_objects_call_state log_call_def)
  qed
  then show "\<exists>r1 s1. load_tags n rem bp uuid4 (map fst bp) s = Some (r1, s1) \<and>
         take (length (calls s)) (calls s1) = calls s \<and>
         (case r1 of
            Inl e \<Rightarrow> ra = Inl e \<and> sa = s1
          | Inr x \<Rightarrow> calls sa = calls s1 @ [AppSetObjects (app_id s1) (tag_to_object s1) (client_id s1)])"
    using l p1 by blast
qed

theorem materialization_order_witness:
  "map_option (\<lambda>p. (fst p, calls (snd p)))
     (load (Suc (Suc (Suc (Suc (Suc (Suc (Suc 0))))))) servicer diamond (stub_function ''f'') None new_app) =
     Some (Inr (Some ''fu-f''),
       [ObjectRpc ''ImageGetOrCreate'' [''ap-1''], ObjectRpc ''FunctionCreate'' [''f'', ''im-1'']]) \<and>
   map_option (\<lambda>p. (fst p, calls (snd p), local_uuid_to_object_id (snd p) ''uuid-image-of-f''))
     (load (Suc (Suc (Suc (Suc (Suc 0))))) servicer diamond (ref ''uuid-image-of-f'' None ''image'') None new_app) =
     Some (Inr (Some ''im-1''), [ObjectRpc ''ImageGetOrCreate'' [''ap-1'']], Some (Some ''im-1'')) \<and>
   map_option (\<lambda>p. calls (snd p)) (load_tags depth servicer diamond ref_uuid [''f''] new_app) =
     Some [ObjectRpc ''ImageGetOrCreate'' [''ap-1''], ObjectRpc ''FunctionCreate'' [''f'', ''im-1'']] \<and>
   map_option (\<lambda>p. calls (snd p)) (load_tags depth servicer diamond ref_uuid ([''f''] @ [''g'', ''image'']) new_app) =
     Some [ObjectRpc ''ImageGetOrCreate'' [''ap-1''], ObjectRpc ''FunctionCreate'' [''f'', ''im-1''],
       ObjectRpc ''FunctionCreate'' [''g'', ''im-1'']] \<and>
   map_option (\<lambda>p. calls (snd p)) (load depth servicer diamond (ref (ref_uuid ''f'') None ''f'') None new_app) =
     Some [ObjectRpc ''ImageGetOrCreate'' [''ap-1''], ObjectRpc ''FunctionCreate'' [''f'', ''im-1'']] \<and>
   map_option (\<lambda>p. (fst p, calls (snd p))) (create_all_objects depth servicer diamond ref_uuid new_app) =
     Some (Inr (),
       [ObjectRpc ''ImageGetOrCreate'' [''ap-1''], ObjectRpc ''FunctionCreate'' [''f'', ''im-1''],
        ObjectRpc ''FunctionCreate'' [''g'', ''im-1''],
        AppSetObjects ''ap-1'' [(''image'', Some ''im-1''), (''f'', Some ''fu-f''), (''g'', Some ''fu-g'')] ''cl-1''])"
proof -
  let ?n = "Suc (Suc (Suc (Suc (Suc 0))))"
  let ?dep = "ref ''uuid-image-of-f'' None ''image''"
  let ?k = "\<lambda>im. AwaitRpc ''FunctionCreate'' [''f'', case im of None \<Rightarrow> [] | Some i \<Rightarrow> i]
             (\<lambda>r. Return (Some r))"
  let ?ld = "\<lambda>(aid :: string) (ex :: string option). AwaitObject ?dep ?k"
  obtain r s' where node: "load (Suc (Suc ?n)) servicer diamond (Definition ''uuid-f'' ?ld) None new_app = Some (r, s')"
    by (simp add: fixture_defs)
  have n0: "local_uuid_to_object_id new_app ''uuid-f'' = None"
    by (simp add: new_app_def App_init_def)
  note t1 = materialization_order[where s = new_app and u = "''uuid-f''" and n = "Suc ?n" and rem = servicer
      and bp = diamond and ld = ?ld and ex = None and r = r and s' = s', THEN conjunct1, THEN mp,
      OF conjI[OF n0 node]]
  from t1 obtain r1 s1 where
    co: "intercept_coro (Suc ?n) servicer diamond (AwaitObject ?dep ?k) new_app = Some (r1, s1)"
    and cs: "calls s' = calls s1"
    by (elim exE conjE)
  note t2 = materialization_order[where s = new_app and n = ?n and rem = servicer
      and bp = diamond and dep = ?dep and k = ?k and rc = r1 and sc = s1,
      THEN conjunct2, THEN conjunct1, THEN mp, OF co]
  from t2 obtain r2 s2 where
    d: "load ?n servicer diamond ?dep None new_app = Some (r2, s2)"
    and p: "take (length (calls s2)) (calls s1) = calls s2"
    and rest: "case r2 of Inl e \<Rightarrow> r1 = Inl e \<and> s1 = s2
       | Inr v \<Rightarrow> local_uuid_to_object_id s2 (local_uuid ?dep) = Some v \<and>
           (local_uuid_to_object_id new_app (local_uuid ?dep) = None \<longrightarrow> v \<noteq> None) \<and>
           intercept_coro ?n servicer diamond (?k v) s2 = Some (r1, s1)"
    by (elim exE conjE)
  have r2: "r2 = Inr (Some ''im-1'')" and c2: "calls s2 = [ObjectRpc ''ImageGetOrCreate'' [''ap-1'']]"
    using d by (auto simp add: fixture_defs)
  have st: "local_uuid_to_object_id s2 ''uuid-image-of-f'' = Some (Some ''im-1'')"
    using rest by (simp add: r2 ref_def)
  have a2: "map_option (\<lambda>p. (fst p, calls (snd p), local_uuid_to_object_id (snd p) ''uuid-image-of-f''))
     (load ?n servicer diamond ?dep None new_app) =
     Some (Inr (Some ''im-1''), [ObjectRpc ''ImageGetOrCreate'' [''ap-1'']], Some (Some ''im-1''))"
    by (simp add: d r2 c2 st del: load.simps)
  have a1: "map_option (\<lambda>p. (fst p, calls (snd p)))
     (load (Suc (Suc ?n)) servicer diamond (stub_function ''f'') None new_app) =
     Some (Inr (Some ''fu-f''),
       [ObjectRpc ''ImageGetOrCreate'' [''ap-1''], ObjectRpc ''FunctionCreate'' [''f'', ''im-1'']])"
    by (simp add: fixture_defs)
  obtain r' s'' where lt: "load_tags depth servicer diamond ref_uuid ([''f''] @ [''g'', ''image'']) new_app = Some (r', s'')"
    by (simp add: fixture_defs)
  note t3 = materialization_order[where s = new_app and n = depth and rem = servicer
      and bp = diamond and ?tags1.0 = "[''f'']" and ?tags2.0 = "[''g'', ''image'']" and ?uuid4.0 = ref_uuid
      and r' = r' and s'' = s'', THEN conjunct2, THEN conjunct2, THEN conjunct1, THEN mp, OF lt]
  from t3 obtain r3 s3 where
    l1: "load_tags depth servicer diamond ref_uuid [''f''] new_app = Some (r3, s3)"
    and p3: "take (length (calls s3)) (calls s'') = calls s3"
    by (elim exE conjE)
  have c3: "calls s3 = [ObjectRpc ''ImageGetOrCreate'' [''ap-1''], ObjectRpc ''FunctionCreate'' [''f'', ''im-1'']]"
    using l1 by (auto simp add: fixture_defs)
  have l4: "length (calls s'') = 3"
    using lt by (auto simp add: fixture_defs)
  have c4: "calls s'' = [ObjectRpc ''ImageGetOrCreate'' [''ap-1''], ObjectRpc ''FunctionCreate'' [''f'', ''im-1''],
       ObjectRpc ''FunctionCreate'' [''g'', ''im-1'']]"
    using lt by (auto simp add: fixture_defs)
  have a3: "map_option (\<lambda>p. calls (snd p)) (load_tags depth servicer diamond ref_uuid [''f''] new_app) =
     Some [ObjectRpc ''ImageGetOrCreate'' [''ap-1''], ObjectRpc ''FunctionCreate'' [''f'', ''im-1'']]"
    by (simp add: l1 c3 del: load_tags.simps)
  have a4: "map_option (\<lambda>p. calls (snd p)) (load_tags depth servicer diamond ref_uuid ([''f''] @ [''g'', ''image'']) new_app) =
     Some [ObjectRpc ''ImageGetOrCreate'' [''ap-1''], ObjectRpc ''FunctionCreate'' [''f'', ''im-1''],
       ObjectRpc ''FunctionCreate'' [''g'', ''im-1'']]"
    by (simp only: lt c4 option.map snd_conv)
  obtain rt st where lc: "load_tags depth servicer diamond ref_uuid (''f'' # [''g'', ''image'']) new_app = Some (rt, st)"
    by (simp add: fixture_defs)
  note t4 = materialization_order[where s = new_app and n = depth and rem = servicer
      and bp = diamond and tag = "''f''" and tags = "[''g'', ''image'']" and ?uuid4.0 = ref_uuid
      and rt = rt and st = st, THEN conjunct2, THEN conjunct2, THEN conjunct2, THEN conjunct1, THEN mp, OF lc]
  from t4 obtain r5 s5 where
    l5: "load depth servicer diamond (ref (ref_uuid ''f'') None ''f'') None new_app = Some (r5, s5)"
    by (elim exE conjE)
  have c5: "calls s5 = [ObjectRpc ''ImageGetOrCreate'' [''ap-1''], ObjectRpc ''FunctionCreate'' [''f'', ''im-1'']]"
    using l5 by (auto simp add: fixture_defs)
  have a5: "map_option (\<lambda>p. calls (snd p)) (load depth servicer diamond (ref (ref_uuid ''f'') None ''f'') None new_app) =
     Some [ObjectRpc ''ImageGetOrCreate'' [''ap-1''], ObjectRpc ''FunctionCreate'' [''f'', ''im-1'']]"
    by (simp only: l5 c5 option.map snd_conv)
  obtain ra sa where ca: "create_all_objects depth servicer diamond ref_uuid new_app = Some (ra, sa)"
    by (simp add: fixture_defs)
  note t5 = materialization_order[where s = new_app and n = depth and rem = servicer
      and bp = diamond and ?uuid4.0 = ref_uuid and ra = ra and sa = sa,
      THEN conjunct2, THEN conjunct2, THEN conjunct2, THEN conjunct2, THEN mp, OF ca]
  from t5 obtain r6 s6 where
    l6: "load_tags depth servicer diamond ref_uuid (map fst diamond) new_app = Some (r6, s6)"
    and rest6: "case r6 of Inl e \<Rightarrow> ra = Inl e \<and> sa = s6
       | Inr x \<Rightarrow> calls sa = calls s6 @ [AppSetObjects (app_id s6) (tag_to_object s6) (client_id s6)]"
    by (elim exE conjE)
  have r6: "r6 = Inr ()"
    and c6: "calls s6 = [ObjectRpc ''ImageGetOrCreate'' [''ap-1''], ObjectRpc ''FunctionCreate'' [''f'', ''im-1''],
        ObjectRpc ''FunctionCreate'' [''g'', ''im-1'']]"
    and i6: "app_id s6 = ''ap-1''" "client_id s6 = ''cl-1''"
      "tag_to_object s6 = [(''image'', Some ''im-1''), (''f'', Some ''fu-f''), (''g'', Some ''fu-g'')]"
    using l6 by (auto simp add: fixture_defs)
  have ra: "ra = Inr ()"
    using ca by (auto simp add: fixture_defs)
  have csa: "calls sa = [ObjectRpc ''ImageGetOrCreate'' [''ap-1''], ObjectRpc ''FunctionCreate'' [''f'', ''im-1''],
        ObjectRpc ''FunctionCreate'' [''g'', ''im-1''],
        AppSetObjects ''ap-1'' [(''image'', Some ''im-1''), (''f'', Some ''fu-f''), (''g'', Some ''fu-g'')] ''cl-1'']"
    using rest6 by (simp add: r6 c6 i6)
  have a6: "map_option (\<lambda>p. (fst p, calls (snd p))) (create_all_objects depth servicer diamond ref_uuid new_app) =
     Some (Inr (),
       [ObjectRpc ''ImageGetOrCreate'' [''ap-1''], ObjectRpc ''FunctionCreate'' [''f'', ''im-1''],
        ObjectRpc ''FunctionCreate'' [''g'', ''im-1''],
        AppSetObjects ''ap-1'' [(''image'', Some ''im-1''), (''f'', Some ''fu-f''), (''g'', Some ''fu-g'')] ''cl-1''])"
    by (simp only: ca ra csa option.map fst_conv snd_conv)
  show ?thesis
    using a1 a2 a3 a4 a5 a6 by blast
qed

text \<open>
  Claim C8, as stated, fails: the tag \<open>old\<close> is no key of the blueprint, but the
  session has an entry for it in \<open>_tag_to_object\<close>, and \<open>load\<close> returns the id
  stored there. Line 107 looks into \<open>_tag_to_object\<close> before line 110 reads the
  blueprint.
\<close>

theorem load_tag_outside_blueprint:
  "load (Suc 0) servicer queue_stub (Ref ''uuid-ref'' None ''old'' None None) None attached_app =
     Some (Inr (Some ''qu-9''),
       attached_app\<lparr>local_uuid_to_object_id := [''uuid-ref'' \<mapsto> Some ''qu-9'']\<rparr>) \<and>
   map_of queue_stub ''old'' = None"
  by (simp add: fixture_defs)

text \<open>
  Claim C8, amended. A reference to the same application (no application name, no
  embedded definition) that is not memoised, whose tag is neither in
  \<open>_tag_to_object\<close> nor a key of the blueprint, makes \<open>load\<close> raise \<open>KeyError\<close>
  at once: the session is returned as it was, so no call was made.
\<close>

theorem load_unresolved_tag:
  assumes "local_uuid_to_object_id s u = None"
    and "map_of (tag_to_object s) tag = None"
    and "map_of bp tag = None"
  shows "load (Suc n) rem bp (Ref u None tag ns None) ex s = Some (Inl (KeyError tag), s)"
  using assms by (simp add: load_Ref_same_app del: load.simps)

theorem load_unresolved_tag_witness:
  "load (Suc 0) servicer queue_stub (Ref ''uuid-ref'' None ''q_2'' None None) None attached_app =
     Some (Inl (KeyError ''q_2''), attached_app)"
  using load_unresolved_tag[where s = attached_app and u = "''uuid-ref''" and bp = queue_stub
      and tag = "''q_2''" and n = 0 and rem = servicer and ns = None and ex = None]
  by (simp add: attached_app_def queue_stub_def App_init_def del: load.simps)

text \<open>
  Claim C9. When the response of \<open>AppLookupObject\<close> carries an empty \<open>object_id\<close>,
  \<open>_lookup_to_id\<close> raises \<open>NotFoundError\<close> with the response's message, otherwise
  it returns the id; either way exactly one call is logged, so nothing is retried. A
  \<open>load\<close> of a reference to another application hands the \<open>NotFoundError\<close> to its
  caller unchanged.
\<close>

theorem lookup_to_id_not_found:
  assumes "lookup_object rem (calls s) an t ns = Inr (object_id, error_message)"
  shows "lookup_to_id rem an t ns s =
           (if object_id = [] then Inl (NotFoundError error_message) else Inr object_id,
            s\<lparr>calls := calls s @ [AppLookupObject an t ns]\<rparr>) \<and>
         (local_uuid_to_object_id s u = None \<and> object_id = [] \<longrightarrow>
            load (Suc n) rem bp (Ref u (Some an) t ns None) ex s =
              Some (Inl (NotFoundError error_message), s\<lparr>calls := calls s @ [AppLookupObject an t ns]\<rparr>))"
proof -
  have a: "lookup_to_id rem an t ns s =
           (if object_id = [] then Inl (NotFoundError error_message) else Inr object_id,
            s\<lparr>calls := calls s @ [AppLookupObject an t ns]\<rparr>)"
    using assms by (simp add: lookup_to_id_def log_call_def)
  show ?thesis
    using a by (simp add: load_Ref_other_app del: load.simps)
qed

theorem lookup_to_id_not_found_witness:
  "lookup_to_id servicer ''bazbazbaz'' [] None new_app =
     (Inl (NotFoundError ''not found''), new_app\<lparr>calls := [AppLookupObject ''bazbazbaz'' [] None]\<rparr>) \<and>
   load (Suc 0) servicer [] (Ref ''uuid-ref'' (Some ''bazbazbaz'') [] None None) None new_app =
     Some (Inl (NotFoundError ''not found''), new_app\<lparr>calls := [AppLookupObject ''bazbazbaz'' [] None]\<rparr>)"
  using lookup_to_id_not_found[where rem = servicer and s = new_app and an = "''bazbazbaz''"
      and t = "[]" and ns = None and object_id = "[]" and error_message = "''not found''"
      and u = "''uuid-ref''" and n = 0 and bp = "[]" and ex = None]
  by (simp add: servicer_def new_app_def App_init_def del: load.simps)

text \<open>
  Claim C10, as stated, fails: the creation logic of \<open>broken\<close> yields \<open>None\<close>, and
  it is loaded with the existing id \<open>qu-0\<close>. The exception of line 133 leaves
  \<open>load\<close> before line 137 is reached, so nothing is stored under the uuid, the session
  is as it was, and the next \<open>load\<close> of the node runs the creation logic again.
\<close>

theorem load_None_not_cached_on_mismatch:
  "load (Suc (Suc 0)) servicer [] broken (Some ''qu-0'') new_app =
     Some (Inl (Exception_existing_id ''qu-0'' None), new_app) \<and>
   local_uuid_to_object_id new_app (local_uuid broken) = None"
  by (simp add: broken_def new_app_def App_init_def startswith_def store_and_return_def)

text \<open>
  Claim C10, amended. For a node that is not a reference and not memoised, whose
  creation logic yields \<open>None\<close>, loaded with no existing id or with one that starts
  with \<open>im-\<close>: \<open>load\<close> raises the exception of line 140 and leaves \<open>None\<close>
  stored under the uuid of the node; every later \<open>load\<close> of a node with that uuid
  returns \<open>None\<close> without raising and without touching the session.
\<close>

theorem load_None_cached:
  assumes "local_uuid_to_object_id s u = None"
    and "intercept_coro n rem bp (ld (app_id s) ex) s = Some (Inr None, s1)"
    and "case ex of None \<Rightarrow> True | Some x \<Rightarrow> startswith x ''im-''"
  shows "load (Suc n) rem bp (Definition u ld) ex s =
           Some (Inl Exception_object_id_None,
                 s1\<lparr>local_uuid_to_object_id := (local_uuid_to_object_id s1)(u \<mapsto> None)\<rparr>) \<and>
         (\<forall>ob' ex' k. local_uuid ob' = u \<longrightarrow>
            load (Suc k) rem bp ob' ex'
                (s1\<lparr>local_uuid_to_object_id := (local_uuid_to_object_id s1)(u \<mapsto> None)\<rparr>) =
              Some (Inr None, s1\<lparr>local_uuid_to_object_id := (local_uuid_to_object_id s1)(u \<mapsto> None)\<rparr>))"
proof (intro conjI allI impI)
  show "load (Suc n) rem bp (Definition u ld) ex s =
           Some (Inl Exception_object_id_None,
                 s1\<lparr>local_uuid_to_object_id := (local_uuid_to_object_id s1)(u \<mapsto> None)\<rparr>)"
    using assms by (cases ex) (simp_all add: load_Definition store_and_return_def del: load.simps)
next
  fix ob' :: obj and ex' k
  assume "local_uuid ob' = u"
  then show "load (Suc k) rem bp ob' ex'
                (s1\<lparr>local_uuid_to_object_id := (local_uuid_to_object_id s1)(u \<mapsto> None)\<rparr>) =
              Some (Inr None, s1\<lparr>local_uuid_to_object_id := (local_uuid_to_object_id s1)(u \<mapsto> None)\<rparr>)"
    by (simp add: load_cached del: load.simps)
qed

theorem load_None_cached_witness:
  "load (Suc (Suc 0)) servicer [] broken None new_app =
     Some (Inl Exception_object_id_None, new_app\<lparr>local_uuid_to_object_id := [''uuid-broken'' \<mapsto> None]\<rparr>) \<and>
   load (Suc (Suc 0)) servicer [] broken None
       (new_app\<lparr>local_uuid_to_object_id := [''uuid-broken'' \<mapsto> None]\<rparr>) =
     Some (Inr None, new_app\<lparr>local_uuid_to_object_id := [''uuid-broken'' \<mapsto> None]\<rparr>)"
proof -
  let ?ld = "\<lambda>(aid :: string) (ex :: string option). Return None"
  have n: "local_uuid_to_object_id new_app ''uuid-broken'' = None"
    by (simp add: new_app_def App_init_def)
  have r: "intercept_coro (Suc 0) servicer [] (?ld (app_id new_app) None) new_app = Some (Inr None, new_app)"
    by simp
  have c: "case None :: string option of None \<Rightarrow> True | Some x \<Rightarrow> startswith x ''im-''"
    by simp
  note t = load_None_cached[where s = new_app and u = "''uuid-broken''" and n = "Suc 0" and rem = servicer
      and bp = "[]" and ld = ?ld and ex = None and ?s1.0 = new_app, OF n r c]
  have a: "load (Suc (Suc 0)) servicer [] (Definition ''uuid-broken'' ?ld) None new_app =
     Some (Inl Exception_object_id_None,
       new_app\<lparr>local_uuid_to_object_id := (local_uuid_to_object_id new_app)(''uuid-broken'' \<mapsto> None)\<rparr>)"
    using t by blast
  have b: "load (Suc (Suc 0)) servicer [] (Definition ''uuid-broken'' ?ld) None
       (new_app\<lparr>local_uuid_to_object_id := (local_uuid_to_object_id new_app)(''uuid-broken'' \<mapsto> None)\<rparr>) =
     Some (Inr None,
       new_app\<lparr>local_uuid_to_object_id := (local_uuid_to_object_id new_app)(''uuid-broken'' \<mapsto> None)\<rparr>)"
    using t by (simp del: load.simps)
  show ?thesis
    using a b by (simp add: broken_def new_app_def App_init_def del: load.simps)
qed

end
